theory Spec2Isabelle
  imports Main "HOL-Library.Word" "HOL-Library.Char_ord" "HOL-Library.List_Lexorder"
begin

unbundle bit_operations_syntax

section \<open>Data model\<close>

text \<open>
  The controller of \<^verbatim>\<open>internal/pkg/machine/controllers/link_spec.go\<close> works on
  values of four libraries: the resources of the Talos machinery (\<^verbatim>\<open>network.LinkSpec\<close>,
  \<^verbatim>\<open>network.WireguardSpec\<close>), the messages of \<^verbatim>\<open>rtnetlink\<close>, the types of
  \<^verbatim>\<open>wgtypes\<close> and the addresses of \<^verbatim>\<open>net\<close> and \<^verbatim>\<open>netip\<close>. Each struct is a
  record with the fields the controller reads or writes; a pointer that may be nil is an
  \<open>option\<close>. Field names carry a short prefix, since HOL records share one name space.
\<close>

type_synonym bytes = "8 word list"

text \<open>\<^verbatim>\<open>wgtypes.Key\<close> is \<^verbatim>\<open>[32]byte\<close>; its zero value is 32 zero bytes.\<close>

type_synonym Key = bytes

definition zeroKey :: Key where
  "zeroKey = replicate 32 0"

record UDPAddr =
  udp_IP :: bytes
  udp_Port :: int
  udp_Zone :: string

record IPNet =
  net_IP :: bytes
  net_Mask :: bytes

record Prefix =
  pfx_Addr :: bytes
  pfx_Bits :: int

text \<open>Errors are values. A wrapped error (\<^verbatim>\<open>fmt.Errorf("...: %w", err)\<close>) keeps the error it
  wraps; \<open>External\<close> is an error produced by a collaborator (the kernel, the resource
  store, the wireguard client, a key or address parser).\<close>

datatype error =
    External string
  | ErrListingSource error
  | ErrAddingFinalizer error
  | ErrListingLinks error
  | ErrDeletingLink string error
  | ErrRemovingFinalizer error
  | ErrCreatingLink string error
  | ErrCreatedLinkNotFound string
  | ErrWireguardClientNotAvailable string
  | ErrWireguardSettings string error
  | ErrWireguardPatch string error
  | ErrConfiguringWireguard string error
  | ErrBumpingLinkRefresh
  | ErrChangingFlags string error
  | ErrSettingMTU string error
  | MultiError "error list"

subsection \<open>The declared wireguard configuration\<close>

record WireguardPeer =
  wp_PublicKey :: string
  wp_PresharedKey :: string
  wp_Endpoint :: string
  wp_PersistentKeepaliveInterval :: int
  wp_AllowedIPs :: "Prefix list"

record WireguardSpec =
  ws_PrivateKey :: string
  ws_PublicKey :: string
  ws_ListenPort :: int
  ws_FirewallMark :: int
  ws_Peers :: "WireguardPeer list"

text \<open>The zero value of \<^verbatim>\<open>network.WireguardPeer\<close> and of \<^verbatim>\<open>network.WireguardSpec\<close>.\<close>

definition zeroPeer :: WireguardPeer where
  "zeroPeer = \<lparr>wp_PublicKey = [], wp_PresharedKey = [], wp_Endpoint = [],
     wp_PersistentKeepaliveInterval = 0, wp_AllowedIPs = []\<rparr>"

definition zeroSpec :: WireguardSpec where
  "zeroSpec = \<lparr>ws_PrivateKey = [], ws_PublicKey = [], ws_ListenPort = 0,
     ws_FirewallMark = 0, ws_Peers = []\<rparr>"

text \<open>Modelled from the spec: \<^verbatim>\<open>WireguardPeer.Equal\<close> belongs to the Talos machinery and is
  not part of this repository; the spec says that for equal keys the merge is to
  \<open>compare full peer content\<close>.\<close>

definition peer_Equal :: "WireguardPeer \<Rightarrow> WireguardPeer \<Rightarrow> bool" where
  "peer_Equal p q \<longleftrightarrow>
     wp_PublicKey p = wp_PublicKey q \<and> wp_PresharedKey p = wp_PresharedKey q \<and>
     wp_Endpoint p = wp_Endpoint q \<and>
     wp_PersistentKeepaliveInterval p = wp_PersistentKeepaliveInterval q \<and>
     wp_AllowedIPs p = wp_AllowedIPs q"

subsection \<open>The wireguard device and its configuration patch\<close>

record Peer =
  dp_PublicKey :: Key
  dp_PresharedKey :: Key
  dp_Endpoint :: "UDPAddr option"
  dp_PersistentKeepaliveInterval :: int
  dp_AllowedIPs :: "IPNet list"

record Device =
  dev_PrivateKey :: Key
  dev_PublicKey :: Key
  dev_ListenPort :: int
  dev_FirewallMark :: int
  dev_Peers :: "Peer list"

record PeerConfig =
  pc_PublicKey :: Key
  pc_Remove :: bool
  pc_PresharedKey :: "Key option"
  pc_Endpoint :: "UDPAddr option"
  pc_PersistentKeepaliveInterval :: "int option"
  pc_ReplaceAllowedIPs :: bool
  pc_AllowedIPs :: "IPNet list"

record Config =
  cfg_PrivateKey :: "Key option"
  cfg_ListenPort :: "int option"
  cfg_FirewallMark :: "int option"
  cfg_Peers :: "PeerConfig list"

subsection \<open>Library functions the codec calls\<close>

text \<open>
  \<^verbatim>\<open>wgtypes.ParseKey\<close>, \<^verbatim>\<open>Key.String\<close>, \<^verbatim>\<open>net.ResolveUDPAddr\<close>, \<^verbatim>\<open>UDPAddr.String\<close>,
  \<^verbatim>\<open>netipx.PrefixIPNet\<close>, \<^verbatim>\<open>netipx.FromStdIPNet\<close> and the methods \<^verbatim>\<open>Sort\<close> and \<^verbatim>\<open>Equal\<close> of
  \<^verbatim>\<open>network.WireguardSpec\<close> are not code of this repository.
  They are parameters of the model: every theorem holds for whatever these functions
  compute, unless a hypothesis says otherwise.
\<close>

record codec =
  ParseKey :: "string \<Rightarrow> error + Key"
  KeyString :: "Key \<Rightarrow> string"
  ResolveUDPAddr :: "string \<Rightarrow> error + UDPAddr"
  AddrString :: "UDPAddr \<Rightarrow> string"
  PrefixIPNet :: "Prefix \<Rightarrow> IPNet"
  FromStdIPNet :: "IPNet \<Rightarrow> Prefix"
  SortSpec :: "WireguardSpec \<Rightarrow> WireguardSpec"
  EqualSpec :: "WireguardSpec \<Rightarrow> WireguardSpec \<Rightarrow> bool"

section \<open>The wireguard diff codec\<close>

subsection \<open>Encode\<close>

text \<open>The entry that the closure \<^verbatim>\<open>addPeer\<close> appends: every parse comes first, in the
  order of the source, and the first failure is returned.\<close>

definition addPeerConfig :: "codec \<Rightarrow> WireguardPeer \<Rightarrow> error + PeerConfig" where
  "addPeerConfig lib peer =
     (case ParseKey lib (wp_PublicKey peer) of
        Inl err \<Rightarrow> Inl err
      | Inr pubKey \<Rightarrow>
          (case (if wp_PresharedKey peer \<noteq> []
                 then (case ParseKey lib (wp_PresharedKey peer) of
                         Inl err \<Rightarrow> Inl err
                       | Inr parsedKey \<Rightarrow> Inr (Some parsedKey))
                 else Inr None) of
             Inl err \<Rightarrow> Inl err
           | Inr presharedKey \<Rightarrow>
               (case (if wp_Endpoint peer \<noteq> []
                      then (case ResolveUDPAddr lib (wp_Endpoint peer) of
                              Inl err \<Rightarrow> Inl err
                            | Inr addr \<Rightarrow> Inr (Some addr))
                      else Inr None) of
                  Inl err \<Rightarrow> Inl err
                | Inr endpoint \<Rightarrow>
                    Inr \<lparr>pc_PublicKey = pubKey, pc_Remove = False,
                         pc_PresharedKey = presharedKey, pc_Endpoint = endpoint,
                         pc_PersistentKeepaliveInterval =
                           Some (wp_PersistentKeepaliveInterval peer),
                         pc_ReplaceAllowedIPs = True,
                         pc_AllowedIPs = map (PrefixIPNet lib) (wp_AllowedIPs peer)\<rparr>)))"

text \<open>The entry that the closure \<^verbatim>\<open>deletePeer\<close> appends; the fields it does not set
  have their zero values.\<close>

definition deletePeerConfig :: "codec \<Rightarrow> WireguardPeer \<Rightarrow> error + PeerConfig" where
  "deletePeerConfig lib peer =
     (case ParseKey lib (wp_PublicKey peer) of
        Inl err \<Rightarrow> Inl err
      | Inr pubKey \<Rightarrow>
          Inr \<lparr>pc_PublicKey = pubKey, pc_Remove = True, pc_PresharedKey = None,
               pc_Endpoint = None, pc_PersistentKeepaliveInterval = None,
               pc_ReplaceAllowedIPs = False, pc_AllowedIPs = []\<rparr>)"

definition appendPeer :: "error + PeerConfig \<Rightarrow> PeerConfig list \<Rightarrow> error + PeerConfig list" where
  "appendPeer r peers = (case r of Inl err \<Rightarrow> Inl err | Inr pc \<Rightarrow> Inr (peers @ [pc]))"

text \<open>
  The merge loop of \<^verbatim>\<open>Encode\<close>. The cursors \<^verbatim>\<open>l\<close> and \<^verbatim>\<open>r\<close> are the two remaining
  suffixes: \<open>left # ls\<close> is \<^verbatim>\<open>existing.Peers[l:]\<close>, \<open>right # rs\<close> is \<^verbatim>\<open>spec.Peers[r:]\<close>,
  and \<open>peers\<close> is \<^verbatim>\<open>cfg.Peers\<close> so far. The \<^verbatim>\<open>switch\<close> has three cases; on strings the
  third (\<^verbatim>\<open>left.PublicKey == right.PublicKey\<close>) is what remains when neither \<open>>\<close> nor \<open><\<close>
  holds.
\<close>

fun encodePeers :: "codec \<Rightarrow> WireguardPeer list \<Rightarrow> WireguardPeer list \<Rightarrow> PeerConfig list
    \<Rightarrow> error + PeerConfig list" where
  "encodePeers lib [] [] peers = Inr peers"
| "encodePeers lib [] (right # rs) peers =
     (case appendPeer (addPeerConfig lib right) peers of
        Inl err \<Rightarrow> Inl err
      | Inr peers' \<Rightarrow> encodePeers lib [] rs peers')"
| "encodePeers lib (left # ls) [] peers =
     (case appendPeer (deletePeerConfig lib left) peers of
        Inl err \<Rightarrow> Inl err
      | Inr peers' \<Rightarrow> encodePeers lib ls [] peers')"
| "encodePeers lib (left # ls) (right # rs) peers =
     (if wp_PublicKey left > wp_PublicKey right then
        (case appendPeer (addPeerConfig lib right) peers of
           Inl err \<Rightarrow> Inl err
         | Inr peers' \<Rightarrow> encodePeers lib (left # ls) rs peers')
      else if wp_PublicKey left < wp_PublicKey right then
        (case appendPeer (deletePeerConfig lib left) peers of
           Inl err \<Rightarrow> Inl err
         | Inr peers' \<Rightarrow> encodePeers lib ls (right # rs) peers')
      else if \<not> peer_Equal left right then
        (case appendPeer (addPeerConfig lib right) peers of
           Inl err \<Rightarrow> Inl err
         | Inr peers' \<Rightarrow> encodePeers lib ls rs peers')
      else encodePeers lib ls rs peers)"

text \<open>\<^verbatim>\<open>Encode\<close>: \<open>spec\<close> is the receiver (the desired configuration), \<open>existing\<close> the
  argument. The private key is parsed first; a failure there returns before the merge.\<close>

definition Encode :: "codec \<Rightarrow> WireguardSpec \<Rightarrow> WireguardSpec \<Rightarrow> error + Config" where
  "Encode lib spec existing =
     (case (if ws_PrivateKey existing \<noteq> ws_PrivateKey spec
            then (case ParseKey lib (ws_PrivateKey spec) of
                    Inl err \<Rightarrow> Inl err
                  | Inr key \<Rightarrow> Inr (Some key))
            else Inr None) of
        Inl err \<Rightarrow> Inl err
      | Inr privateKey \<Rightarrow>
          (case encodePeers lib (ws_Peers existing) (ws_Peers spec) [] of
             Inl err \<Rightarrow> Inl err
           | Inr peers \<Rightarrow>
               Inr \<lparr>cfg_PrivateKey = privateKey,
                    cfg_ListenPort =
                      (if ws_ListenPort existing \<noteq> ws_ListenPort spec
                       then Some (ws_ListenPort spec) else None),
                    cfg_FirewallMark =
                      (if ws_FirewallMark existing \<noteq> ws_FirewallMark spec
                       then Some (ws_FirewallMark spec) else None),
                    cfg_Peers = peers\<rparr>))"

subsection \<open>Decode\<close>

text \<open>One iteration of the loop of \<^verbatim>\<open>Decode\<close>: the peer starts as the zero value that
  \<^verbatim>\<open>make\<close> produced, and the endpoint and the preshared key are assigned only under their
  guards.\<close>

definition decodePeer :: "codec \<Rightarrow> Peer \<Rightarrow> WireguardPeer" where
  "decodePeer lib p =
     \<lparr>wp_PublicKey = KeyString lib (dp_PublicKey p),
      wp_PresharedKey =
        (if dp_PresharedKey p \<noteq> zeroKey then KeyString lib (dp_PresharedKey p)
         else wp_PresharedKey zeroPeer),
      wp_Endpoint =
        (case dp_Endpoint p of
           Some addr \<Rightarrow> AddrString lib addr
         | None \<Rightarrow> wp_Endpoint zeroPeer),
      wp_PersistentKeepaliveInterval = dp_PersistentKeepaliveInterval p,
      wp_AllowedIPs = map (FromStdIPNet lib) (dp_AllowedIPs p)\<rparr>"

text \<open>\<^verbatim>\<open>Decode\<close> writes into the spec it is called on: the key field that \<open>isStatus\<close> does
  not select keeps the value it had.\<close>

definition Decode :: "codec \<Rightarrow> WireguardSpec \<Rightarrow> Device \<Rightarrow> bool \<Rightarrow> WireguardSpec" where
  "Decode lib spec dev isStatus =
     (let spec1 = (if isStatus
                   then spec\<lparr>ws_PublicKey := KeyString lib (dev_PublicKey dev)\<rparr>
                   else spec\<lparr>ws_PrivateKey := KeyString lib (dev_PrivateKey dev)\<rparr>)
      in spec1\<lparr>ws_ListenPort := dev_ListenPort dev,
               ws_FirewallMark := dev_FirewallMark dev,
               ws_Peers := map (decodePeer lib) (dev_Peers dev)\<rparr>)"

section \<open>The link reconciler\<close>

subsection \<open>Declared links and kernel links\<close>

datatype Phase = PhaseRunning | PhaseTearingDown

text \<open>A declared item: the identity and phase of its metadata and the fields of
  \<^verbatim>\<open>TypedSpec()\<close> that \<^verbatim>\<open>syncLink\<close> reads.\<close>

record LinkSpec =
  md_ID :: string
  md_Phase :: Phase
  ls_Name :: string
  ls_Logical :: bool
  ls_Up :: bool
  ls_MTU :: "32 word"
  ls_Kind :: string
  ls_Type :: "16 word"
  ls_Wireguard :: WireguardSpec

definition LinkKindWireguard :: string where
  "LinkKindWireguard = ''wireguard''"

definition IFF_UP :: "32 word" where
  "IFF_UP = 1"

text \<open>A link as \<^verbatim>\<open>conn.Link.List\<close> reports it. \<^verbatim>\<open>rtnetlink\<close> decodes every listed message
  with its attributes, and \<^verbatim>\<open>FindLink\<close> reads \<^verbatim>\<open>link.Attributes.Name\<close> unguarded, so the
  attributes are a plain field here; \<^verbatim>\<open>Info\<close> is the pointer the controller tests for
  nil.\<close>

record LinkInfo =
  li_Kind :: string
  li_Data :: bytes

record LinkAttributes =
  la_Name :: string
  la_Type :: "32 word"
  la_MTU :: "32 word"
  la_Info :: "LinkInfo option"

record LinkMessage =
  lm_Family :: "16 word"
  lm_Type :: "16 word"
  lm_Index :: "32 word"
  lm_Flags :: "32 word"
  lm_Change :: "32 word"
  lm_Attributes :: LinkAttributes

text \<open>The three messages the controller builds itself, with the fields it sets (the others
  are zero values): the message of \<^verbatim>\<open>conn.Link.New\<close>, and the flags-only and the MTU-only
  message of \<^verbatim>\<open>conn.Link.Set\<close>.\<close>

datatype LinkRequest =
    NewLink (rq_Type: "16 word") (rq_Name: string) (rq_ParentIndex: "32 word")
      (rq_Kind: string) (rq_Data: bytes)
  | SetFlags (rq_Family: "16 word") (rq_Type: "16 word") (rq_Index: "32 word")
      (rq_Flags: "32 word") (rq_Change: "32 word")
  | SetMTU (rq_Family: "16 word") (rq_Type: "16 word") (rq_Index: "32 word")
      (rq_MTU: "32 word")

subsection \<open>Collaborators\<close>

text \<open>
  The resource runtime, the rtnetlink connection and the wireguard client are outside the
  repository. Their state is a value of an arbitrary type \<open>'w\<close>, and each operation is a
  function from that state to a reply and a new state: the model fixes nothing about what
  the kernel or the store does, or about when a call fails. \<open>wgClient\<close> is \<open>None\<close> when
  \<^verbatim>\<open>wgctrl.New\<close> failed and the client pointer is nil.
\<close>

record 'w wgctrl =
  wg_Device :: "string \<Rightarrow> 'w \<Rightarrow> (error + Device) \<times> 'w"
  wg_ConfigureDevice :: "string \<Rightarrow> Config \<Rightarrow> 'w \<Rightarrow> error option \<times> 'w"

record 'w collaborators =
  rt_List :: "'w \<Rightarrow> (error + LinkSpec list) \<times> 'w"
  rt_AddFinalizer :: "string \<Rightarrow> 'w \<Rightarrow> error option \<times> 'w"
  rt_RemoveFinalizer :: "string \<Rightarrow> 'w \<Rightarrow> error option \<times> 'w"
  rt_BumpLinkRefresh :: "'w \<Rightarrow> error option \<times> 'w"
  rt_ResetRestartBackoff :: "'w \<Rightarrow> 'w"
  conn_List :: "'w \<Rightarrow> (LinkMessage list \<times> error option) \<times> 'w"
  conn_Delete :: "32 word \<Rightarrow> 'w \<Rightarrow> error option \<times> 'w"
  conn_New :: "LinkRequest \<Rightarrow> 'w \<Rightarrow> error option \<times> 'w"
  conn_Set :: "LinkRequest \<Rightarrow> 'w \<Rightarrow> error option \<times> 'w"
  wgClient :: "'w wgctrl option"

text \<open>Every call the controller makes is recorded, in order, beside the collaborators'
  state, so that a theorem can say which calls a sync issues.\<close>

datatype call =
    CallListSpecs
  | CallAddFinalizer string
  | CallRemoveFinalizer string
  | CallBumpLinkRefresh
  | CallResetRestartBackoff
  | CallLinkList
  | CallLinkDelete "32 word"
  | CallLinkNew LinkRequest
  | CallLinkSet LinkRequest
  | CallDevice string
  | CallConfigureDevice string Config

record 'w state =
  world :: 'w
  calls :: "call list"

definition perform :: "call \<Rightarrow> ('w \<Rightarrow> 'r \<times> 'w) \<Rightarrow> 'w state \<Rightarrow> 'r \<times> 'w state" where
  "perform c f st =
     (case f (world st) of (r, w) \<Rightarrow> (r, \<lparr>world = w, calls = calls st @ [c]\<rparr>))"

definition ListSpecs :: "'w collaborators \<Rightarrow> 'w state \<Rightarrow> (error + LinkSpec list) \<times> 'w state" where
  "ListSpecs env = perform CallListSpecs (rt_List env)"

definition AddFinalizer :: "'w collaborators \<Rightarrow> string \<Rightarrow> 'w state \<Rightarrow> error option \<times> 'w state" where
  "AddFinalizer env rid = perform (CallAddFinalizer rid) (rt_AddFinalizer env rid)"

definition RemoveFinalizer :: "'w collaborators \<Rightarrow> string \<Rightarrow> 'w state \<Rightarrow> error option \<times> 'w state" where
  "RemoveFinalizer env rid = perform (CallRemoveFinalizer rid) (rt_RemoveFinalizer env rid)"

definition BumpLinkRefresh :: "'w collaborators \<Rightarrow> 'w state \<Rightarrow> error option \<times> 'w state" where
  "BumpLinkRefresh env = perform CallBumpLinkRefresh (rt_BumpLinkRefresh env)"

definition ResetRestartBackoff :: "'w collaborators \<Rightarrow> 'w state \<Rightarrow> 'w state" where
  "ResetRestartBackoff env st =
     \<lparr>world = rt_ResetRestartBackoff env (world st),
      calls = calls st @ [CallResetRestartBackoff]\<rparr>"

definition LinkList :: "'w collaborators \<Rightarrow> 'w state \<Rightarrow> (LinkMessage list \<times> error option) \<times> 'w state" where
  "LinkList env = perform CallLinkList (conn_List env)"

definition LinkDelete :: "'w collaborators \<Rightarrow> 32 word \<Rightarrow> 'w state \<Rightarrow> error option \<times> 'w state" where
  "LinkDelete env idx = perform (CallLinkDelete idx) (conn_Delete env idx)"

definition LinkNew :: "'w collaborators \<Rightarrow> LinkRequest \<Rightarrow> 'w state \<Rightarrow> error option \<times> 'w state" where
  "LinkNew env msg = perform (CallLinkNew msg) (conn_New env msg)"

definition LinkSet :: "'w collaborators \<Rightarrow> LinkRequest \<Rightarrow> 'w state \<Rightarrow> error option \<times> 'w state" where
  "LinkSet env msg = perform (CallLinkSet msg) (conn_Set env msg)"

definition DeviceOf :: "'w wgctrl \<Rightarrow> string \<Rightarrow> 'w state \<Rightarrow> (error + Device) \<times> 'w state" where
  "DeviceOf wg name = perform (CallDevice name) (wg_Device wg name)"

definition ConfigureDevice :: "'w wgctrl \<Rightarrow> string \<Rightarrow> Config \<Rightarrow> 'w state \<Rightarrow> error option \<times> 'w state" where
  "ConfigureDevice wg name cfg =
     perform (CallConfigureDevice name cfg) (wg_ConfigureDevice wg name cfg)"

subsection \<open>FindLink\<close>

text \<open>\<^verbatim>\<open>slices.IndexFunc\<close>: the first index whose element satisfies the predicate, \<open>None\<close>
  for \<^verbatim>\<open>-1\<close>.\<close>

fun IndexFunc :: "'a list \<Rightarrow> ('a \<Rightarrow> bool) \<Rightarrow> nat option" where
  "IndexFunc [] f = None"
| "IndexFunc (x # xs) f = (if f x then Some 0 else map_option Suc (IndexFunc xs f))"

text \<open>\<^verbatim>\<open>FindLink\<close> returns \<^verbatim>\<open>&links[index]\<close>, a pointer into the snapshot: the model returns
  the index, and a write through the pointer is an update of the snapshot at that index.\<close>

definition FindLink :: "LinkMessage list \<Rightarrow> string \<Rightarrow> nat option" where
  "FindLink links name = IndexFunc links (\<lambda>link. la_Name (lm_Attributes link) = name)"

subsection \<open>syncLink\<close>

text \<open>
  \<^verbatim>\<open>syncLink\<close> returns an error or nil, writes the snapshot through the pointer \<^verbatim>\<open>links\<close>
  and calls the collaborators: the model returns the error, the snapshot and the state.
  The function is long, so the model follows its commented sections, one definition each.
  A section of the \<^verbatim>\<open>PhaseRunning\<close> case that can end the whole function returns \<open>Inl\<close> of
  the returned value, and \<open>Inr\<close> when the function goes on.
\<close>

definition syncTearingDown :: "'w collaborators \<Rightarrow> LinkMessage list \<Rightarrow> LinkSpec \<Rightarrow> 'w state
    \<Rightarrow> error option \<times> LinkMessage list \<times> 'w state" where
  "syncTearingDown env links link st =
     (case (if ls_Logical link then
              (case FindLink links (ls_Name link) of
                 Some i \<Rightarrow>
                   (case LinkDelete env (lm_Index (links ! i)) st of
                      (Some err, st1) \<Rightarrow> (Some (ErrDeletingLink (ls_Name link) err), links, st1)
                    | (None, st1) \<Rightarrow>
                        (case LinkList env st1 of
                           ((links', err), st2) \<Rightarrow> (map_option ErrListingLinks err, links', st2)))
               | None \<Rightarrow> (None, links, st))
            else (None, links, st)) of
        (Some err, links1, st1) \<Rightarrow> (Some err, links1, st1)
      | (None, links1, st1) \<Rightarrow>
          (case RemoveFinalizer env (md_ID link) st1 of
             (err, st2) \<Rightarrow> (map_option ErrRemovingFinalizer err, links1, st2)))"

text \<open>Lines 203 to 240: look the link up and, for a logical spec, compare type and kind.
  The result \<open>Inr existing\<close> is the pointer \<^verbatim>\<open>existing\<close> after the section.\<close>

definition checkKind :: "'w collaborators \<Rightarrow> LinkMessage list \<Rightarrow> LinkSpec \<Rightarrow> 'w state
    \<Rightarrow> (error option + nat option) \<times> 'w state" where
  "checkKind env links link st =
     (case FindLink links (ls_Name link) of
        None \<Rightarrow> (Inr None, st)
      | Some i \<Rightarrow>
          if ls_Logical link then
            (case la_Info (lm_Attributes (links ! i)) of
               None \<Rightarrow> (Inl None, st)
             | Some info \<Rightarrow>
                 if lm_Type (links ! i) \<noteq> ls_Type link \<or> li_Kind info \<noteq> ls_Kind link then
                   (case LinkDelete env (lm_Index (links ! i)) st of
                      (Some err, st1) \<Rightarrow> (Inl (Some (ErrDeletingLink (ls_Name link) err)), st1)
                    | (None, st1) \<Rightarrow> (Inr None, st1))
                 else (Inr (Some i), st))
          else (Inr (Some i), st))"

text \<open>Lines 242 to 286, entered with \<^verbatim>\<open>existing == nil\<close>.\<close>

definition createLink :: "'w collaborators \<Rightarrow> LinkMessage list \<Rightarrow> LinkSpec \<Rightarrow> 'w state
    \<Rightarrow> (error option + nat) \<times> LinkMessage list \<times> 'w state" where
  "createLink env links link st =
     (if \<not> ls_Logical link then (Inl None, links, st)
      else if ls_Kind link \<noteq> LinkKindWireguard then (Inl None, links, st)
      else
        (case LinkNew env (NewLink (ls_Type link) (ls_Name link) 0 (ls_Kind link) []) st of
           (Some err, st1) \<Rightarrow> (Inl (Some (ErrCreatingLink (ls_Name link) err)), links, st1)
         | (None, st1) \<Rightarrow>
             (case LinkList env st1 of
                ((links', Some err), st2) \<Rightarrow> (Inl (Some (ErrListingLinks err)), links', st2)
              | ((links', None), st2) \<Rightarrow>
                  (case FindLink links' (ls_Name link) of
                     None \<Rightarrow> (Inl (Some (ErrCreatedLinkNotFound (ls_Name link))), links', st2)
                   | Some i \<Rightarrow> (Inr i, links', st2)))))"

text \<open>Lines 288 to 328. The desired spec is sorted in place in the resource; the resource
  is not read again in the cycle, so the model keeps the sorted value local.\<close>

definition syncWireguard :: "'w collaborators \<Rightarrow> codec \<Rightarrow> LinkSpec \<Rightarrow> 'w state
    \<Rightarrow> error option \<times> 'w state" where
  "syncWireguard env lib link st =
     (if ls_Kind link = LinkKindWireguard then
        (case wgClient env of
           None \<Rightarrow> (Some (ErrWireguardClientNotAvailable (ls_Name link)), st)
         | Some wg \<Rightarrow>
             (case DeviceOf wg (ls_Name link) st of
                (Inl err, st1) \<Rightarrow> (Some (ErrWireguardSettings (ls_Name link) err), st1)
              | (Inr wgDev, st1) \<Rightarrow>
                  (let existingSpec = SortSpec lib (Decode lib zeroSpec wgDev False);
                       desired = SortSpec lib (ls_Wireguard link)
                   in if \<not> EqualSpec lib existingSpec desired then
                        (case Encode lib desired existingSpec of
                           Inl err \<Rightarrow> (Some (ErrWireguardPatch (ls_Name link) err), st1)
                         | Inr config \<Rightarrow>
                             (case ConfigureDevice wg (ls_Name link) config st1 of
                                (Some err, st2) \<Rightarrow>
                                  (Some (ErrConfiguringWireguard (ls_Name link) err), st2)
                              | (None, st2) \<Rightarrow>
                                  (case BumpLinkRefresh env st2 of
                                     (Some err, st3) \<Rightarrow> (Some ErrBumpingLinkRefresh, st3)
                                   | (None, st3) \<Rightarrow> (None, st3))))
                      else (None, st1))))
      else (None, st))"

text \<open>Lines 330 to 350; \<open>i\<close> is the pointer \<^verbatim>\<open>existing\<close>.\<close>

definition syncUp :: "'w collaborators \<Rightarrow> LinkMessage list \<Rightarrow> nat \<Rightarrow> LinkSpec \<Rightarrow> 'w state
    \<Rightarrow> error option \<times> 'w state" where
  "syncUp env links i link st =
     (let existing = links ! i;
          existingUp = (lm_Flags existing AND IFF_UP = IFF_UP)
      in if existingUp \<noteq> ls_Up link then
           (let flags = (if ls_Up link then IFF_UP else 0)
            in case LinkSet env (SetFlags (lm_Family existing) (lm_Type existing)
                                   (lm_Index existing) flags IFF_UP) st of
                 (Some err, st1) \<Rightarrow> (Some (ErrChangingFlags (ls_Name link) err), st1)
               | (None, st1) \<Rightarrow> (None, st1))
         else (None, st))"

text \<open>Lines 352 to 368. The assignment \<^verbatim>\<open>existing.Attributes.MTU = ...\<close> goes through the
  pointer into the snapshot.\<close>

definition syncMTU :: "'w collaborators \<Rightarrow> LinkMessage list \<Rightarrow> nat \<Rightarrow> LinkSpec \<Rightarrow> 'w state
    \<Rightarrow> error option \<times> LinkMessage list \<times> 'w state" where
  "syncMTU env links i link st =
     (let existing = links ! i
      in if ls_MTU link \<noteq> 0 \<and> la_MTU (lm_Attributes existing) \<noteq> ls_MTU link then
           (case LinkSet env (SetMTU (lm_Family existing) (lm_Type existing)
                                (lm_Index existing) (ls_MTU link)) st of
              (Some err, st1) \<Rightarrow> (Some (ErrSettingMTU (ls_Name link) err), links, st1)
            | (None, st1) \<Rightarrow>
                (None,
                 links[i := existing\<lparr>lm_Attributes :=
                              (lm_Attributes existing)\<lparr>la_MTU := ls_MTU link\<rparr>\<rparr>],
                 st1))
         else (None, links, st))"

text \<open>The \<^verbatim>\<open>PhaseRunning\<close> case: the sections in the order of the source.\<close>

definition resolveLink :: "'w collaborators \<Rightarrow> LinkMessage list \<Rightarrow> LinkSpec \<Rightarrow> 'w state
    \<Rightarrow> (error option + nat) \<times> LinkMessage list \<times> 'w state" where
  "resolveLink env links link st =
     (case checkKind env links link st of
        (Inl ret, st1) \<Rightarrow> (Inl ret, links, st1)
      | (Inr (Some i), st1) \<Rightarrow> (Inr i, links, st1)
      | (Inr None, st1) \<Rightarrow> createLink env links link st1)"

definition syncRunning :: "'w collaborators \<Rightarrow> codec \<Rightarrow> LinkMessage list \<Rightarrow> LinkSpec \<Rightarrow> 'w state
    \<Rightarrow> error option \<times> LinkMessage list \<times> 'w state" where
  "syncRunning env lib links link st =
     (case resolveLink env links link st of
        (Inl ret, links1, st1) \<Rightarrow> (ret, links1, st1)
      | (Inr i, links1, st1) \<Rightarrow>
          (case syncWireguard env lib link st1 of
             (Some err, st2) \<Rightarrow> (Some err, links1, st2)
           | (None, st2) \<Rightarrow>
               (case syncUp env links1 i link st2 of
                  (Some err, st3) \<Rightarrow> (Some err, links1, st3)
                | (None, st3) \<Rightarrow> syncMTU env links1 i link st3)))"

definition syncLink :: "'w collaborators \<Rightarrow> codec \<Rightarrow> LinkMessage list \<Rightarrow> LinkSpec \<Rightarrow> 'w state
    \<Rightarrow> error option \<times> LinkMessage list \<times> 'w state" where
  "syncLink env lib links link st =
     (case md_Phase link of
        PhaseTearingDown \<Rightarrow> syncTearingDown env links link st
      | PhaseRunning \<Rightarrow> syncRunning env lib links link st)"

subsection \<open>One cycle of Run\<close>

text \<open>The first loop over the listed items: a finalizer for every running resource; the
  first failure returns.\<close>

fun addFinalizers :: "'w collaborators \<Rightarrow> LinkSpec list \<Rightarrow> 'w state \<Rightarrow> error option \<times> 'w state" where
  "addFinalizers env [] st = (None, st)"
| "addFinalizers env (res # rest) st =
     (if md_Phase res \<noteq> PhaseRunning then addFinalizers env rest st
      else
        (case AddFinalizer env (md_ID res) st of
           (Some err, st1) \<Rightarrow> (Some (ErrAddingFinalizer err), st1)
         | (None, st1) \<Rightarrow> addFinalizers env rest st1))"

text \<open>The second loop: \<open>multiErr\<close> is the list of errors appended so far
  (\<^verbatim>\<open>multierror.Append\<close>), \<open>links\<close> the snapshot shared by all items.\<close>

fun syncLinks :: "'w collaborators \<Rightarrow> codec \<Rightarrow> LinkSpec list \<Rightarrow> LinkMessage list \<Rightarrow> error list
    \<Rightarrow> 'w state \<Rightarrow> error list \<times> LinkMessage list \<times> 'w state" where
  "syncLinks env lib [] links multiErr st = (multiErr, links, st)"
| "syncLinks env lib (link # rest) links multiErr st =
     (case syncLink env lib links link st of
        (Some err, links1, st1) \<Rightarrow> syncLinks env lib rest links1 (multiErr @ [err]) st1
      | (None, links1, st1) \<Rightarrow> syncLinks env lib rest links1 multiErr st1)"

text \<open>The body of the \<^verbatim>\<open>for\<close> loop of \<^verbatim>\<open>Run\<close> after a wake-up. \<open>Some err\<close> is the error
  \<^verbatim>\<open>Run\<close> returns with; \<open>None\<close> means that the loop goes back to waiting.
  \<^verbatim>\<open>ErrorOrNil\<close> is nil exactly when nothing was appended.\<close>

definition runCycle :: "'w collaborators \<Rightarrow> codec \<Rightarrow> 'w state \<Rightarrow> error option \<times> 'w state" where
  "runCycle env lib st =
     (case ListSpecs env st of
        (Inl err, st1) \<Rightarrow> (Some (ErrListingSource err), st1)
      | (Inr items, st1) \<Rightarrow>
          (case addFinalizers env items st1 of
             (Some err, st2) \<Rightarrow> (Some err, st2)
           | (None, st2) \<Rightarrow>
               (case LinkList env st2 of
                  ((links, Some err), st3) \<Rightarrow> (Some (ErrListingLinks err), st3)
                | ((links, None), st3) \<Rightarrow>
                    (case syncLinks env lib items links [] st3 of
                       (multiErr, links1, st4) \<Rightarrow>
                         if multiErr \<noteq> [] then (Some (MultiError multiErr), st4)
                         else (None, ResetRestartBackoff env st4)))))"

section \<open>Notions used to state the properties\<close>

subsection \<open>Applying a patch to the peers of a device\<close>

text \<open>Modelled from the spec: the wireguard control client is not part of this repository.
  The spec describes \<^verbatim>\<open>configure\<close> as \<open>applying add/replace/remove peer entries\<close>: a
  remove-entry is \<open>keyed only by public key\<close>, an add- or replace-entry \<open>carries the full
  new peer state\<close> and \<open>wholly replaces that peer's allowed-IP set\<close>. The peers of a device
  are a table from the public key to the peer as the device reports it
  (\<^verbatim>\<open>wgtypes.Peer\<close>, the record that \<^verbatim>\<open>Decode\<close> reads). The state an entry carries has
  the zero key where the entry has no preshared key, as \<^verbatim>\<open>Decode\<close> reads it back; an
  entry that does not replace the allowed IPs adds its own to those the peer has.\<close>

definition installed :: "PeerConfig \<Rightarrow> Peer" where
  "installed pc =
     \<lparr>dp_PublicKey = pc_PublicKey pc,
      dp_PresharedKey = (case pc_PresharedKey pc of Some key \<Rightarrow> key | None \<Rightarrow> zeroKey),
      dp_Endpoint = pc_Endpoint pc,
      dp_PersistentKeepaliveInterval =
        (case pc_PersistentKeepaliveInterval pc of Some d \<Rightarrow> d | None \<Rightarrow> 0),
      dp_AllowedIPs = pc_AllowedIPs pc\<rparr>"

definition applyPeerConfig :: "(Key \<rightharpoonup> Peer) \<Rightarrow> PeerConfig \<Rightarrow> (Key \<rightharpoonup> Peer)" where
  "applyPeerConfig m pc =
     (if pc_Remove pc then m(pc_PublicKey pc := None)
      else if pc_ReplaceAllowedIPs pc then m(pc_PublicKey pc \<mapsto> installed pc)
      else m(pc_PublicKey pc \<mapsto>
             (installed pc)\<lparr>dp_AllowedIPs :=
               (case m (pc_PublicKey pc) of Some old \<Rightarrow> dp_AllowedIPs old | None \<Rightarrow> [])
               @ pc_AllowedIPs pc\<rparr>))"

definition applyPeers :: "(Key \<rightharpoonup> Peer) \<Rightarrow> PeerConfig list \<Rightarrow> (Key \<rightharpoonup> Peer)" where
  "applyPeers m pcs = foldl applyPeerConfig m pcs"

text \<open>Modelled from the spec: the peer that a device holds for a declared peer, written from
  the fields of the declared peer. The data model gives a peer a
  public key, an optional preshared key, an optional endpoint address, a keepalive interval
  and a set of allowed IP prefixes; an absent preshared key is the all-zero key, an absent
  endpoint is no address. A declared peer has no such state when one of its texts does not
  parse.\<close>

definition peerState :: "codec \<Rightarrow> WireguardPeer \<Rightarrow> Peer option" where
  "peerState lib p =
     (case ParseKey lib (wp_PublicKey p) of
        Inl err \<Rightarrow> None
      | Inr key \<Rightarrow>
          (case (if wp_PresharedKey p = [] then Inr zeroKey
                 else ParseKey lib (wp_PresharedKey p)) of
             Inl err \<Rightarrow> None
           | Inr psk \<Rightarrow>
               (case (if wp_Endpoint p = [] then Inr None
                      else (case ResolveUDPAddr lib (wp_Endpoint p) of
                              Inl err \<Rightarrow> Inl err
                            | Inr addr \<Rightarrow> Inr (Some addr))) of
                  Inl err \<Rightarrow> None
                | Inr endpoint \<Rightarrow>
                    Some \<lparr>dp_PublicKey = key, dp_PresharedKey = psk, dp_Endpoint = endpoint,
                          dp_PersistentKeepaliveInterval = wp_PersistentKeepaliveInterval p,
                          dp_AllowedIPs = map (PrefixIPNet lib) (wp_AllowedIPs p)\<rparr>)))"

text \<open>The table of a device that holds exactly the peers of a list.\<close>

definition tableStep :: "codec \<Rightarrow> (Key \<rightharpoonup> Peer) \<Rightarrow> WireguardPeer \<Rightarrow> (Key \<rightharpoonup> Peer)" where
  "tableStep lib m p =
     (case peerState lib p of Some peer \<Rightarrow> m(dp_PublicKey peer \<mapsto> peer) | None \<Rightarrow> m)"

definition peerTable :: "codec \<Rightarrow> WireguardPeer list \<Rightarrow> (Key \<rightharpoonup> Peer)" where
  "peerTable lib ps = foldl (tableStep lib) Map.empty ps"

text \<open>The key set of a peer list, the keys that two lists share with different content, and
  the peers whose key, preshared key and endpoint all parse.\<close>

definition peerKeys :: "WireguardPeer list \<Rightarrow> string set" where
  "peerKeys ps = wp_PublicKey ` set ps"

definition mismatched :: "WireguardPeer list \<Rightarrow> WireguardPeer list \<Rightarrow> string set" where
  "mismatched ls rs =
     wp_PublicKey `
       set (filter (\<lambda>p. \<exists>q\<in>set ls. wp_PublicKey q = wp_PublicKey p \<and> \<not> peer_Equal q p) rs)"

definition parses :: "codec \<Rightarrow> WireguardPeer \<Rightarrow> bool" where
  "parses lib p \<longleftrightarrow> peerState lib p \<noteq> None"

subsection \<open>The merge as a list of decisions\<close>

text \<open>For the proofs the merge loop is read in two steps: the decisions it takes, in order,
  and the encoding of each decision. Lemma \<open>encodePeers_mergePeers\<close> below shows that the
  two steps together are the loop, errors included.\<close>

datatype peerAction = AddPeer WireguardPeer | DeletePeer WireguardPeer

fun actionPeer :: "peerAction \<Rightarrow> WireguardPeer" where
  "actionPeer (AddPeer p) = p"
| "actionPeer (DeletePeer p) = p"

fun mergePeers :: "WireguardPeer list \<Rightarrow> WireguardPeer list \<Rightarrow> peerAction list" where
  "mergePeers [] [] = []"
| "mergePeers [] (right # rs) = AddPeer right # mergePeers [] rs"
| "mergePeers (left # ls) [] = DeletePeer left # mergePeers ls []"
| "mergePeers (left # ls) (right # rs) =
     (if wp_PublicKey left > wp_PublicKey right then AddPeer right # mergePeers (left # ls) rs
      else if wp_PublicKey left < wp_PublicKey right then DeletePeer left # mergePeers ls (right # rs)
      else if \<not> peer_Equal left right then AddPeer right # mergePeers ls rs
      else mergePeers ls rs)"

fun actionConfig :: "codec \<Rightarrow> peerAction \<Rightarrow> error + PeerConfig" where
  "actionConfig lib (AddPeer p) = addPeerConfig lib p"
| "actionConfig lib (DeletePeer p) = deletePeerConfig lib p"

fun encodeActions :: "codec \<Rightarrow> peerAction list \<Rightarrow> PeerConfig list \<Rightarrow> error + PeerConfig list" where
  "encodeActions lib [] peers = Inr peers"
| "encodeActions lib (a # as) peers =
     (case appendPeer (actionConfig lib a) peers of
        Inl err \<Rightarrow> Inl err
      | Inr peers' \<Rightarrow> encodeActions lib as peers')"

fun cfgOf :: "(WireguardPeer \<Rightarrow> PeerConfig) \<Rightarrow> (WireguardPeer \<Rightarrow> PeerConfig) \<Rightarrow> peerAction \<Rightarrow> PeerConfig" where
  "cfgOf X D (AddPeer p) = X p"
| "cfgOf X D (DeletePeer p) = D p"

subsection \<open>Calls and cycles\<close>

text \<open>An MTU modification is a call of \<^verbatim>\<open>conn.Link.Set\<close> with the MTU-only message.\<close>

definition isSetMTU :: "call \<Rightarrow> bool" where
  "isSetMTU c = (case c of CallLinkSet (SetMTU f t i m) \<Rightarrow> True | _ \<Rightarrow> False)"

text \<open>The result of the sync of each item of a list, in order, and the snapshot and state
  after the last one: every item is synced, each from where the one before it ended,
  whatever the results were.\<close>

fun syncResults :: "'w collaborators \<Rightarrow> codec \<Rightarrow> LinkSpec list \<Rightarrow> LinkMessage list \<Rightarrow> 'w state
    \<Rightarrow> error option list" where
  "syncResults env lib [] links st = []"
| "syncResults env lib (link # rest) links st =
     (case syncLink env lib links link st of
        (r, links1, st1) \<Rightarrow> r # syncResults env lib rest links1 st1)"

fun syncedState :: "'w collaborators \<Rightarrow> codec \<Rightarrow> LinkSpec list \<Rightarrow> LinkMessage list \<Rightarrow> 'w state
    \<Rightarrow> LinkMessage list \<times> 'w state" where
  "syncedState env lib [] links st = (links, st)"
| "syncedState env lib (link # rest) links st =
     (case syncLink env lib links link st of
        (r, links1, st1) \<Rightarrow> syncedState env lib rest links1 st1)"

fun collectErrors :: "error option list \<Rightarrow> error list" where
  "collectErrors [] = []"
| "collectErrors (None # rs) = collectErrors rs"
| "collectErrors (Some err # rs) = err # collectErrors rs"

section \<open>Collaborators for the examples\<close>

text \<open>
  The theorems below hold for all collaborators. Their concrete instances need some: a
  small kernel that keeps a list of links and never fails, a store that keeps the list of
  resources holding the finalizer, and no wireguard client.
\<close>

record exampleWorld =
  ew_Specs :: "LinkSpec list"
  ew_Links :: "LinkMessage list"
  ew_Finalizers :: "string list"

definition exampleNew :: "LinkRequest \<Rightarrow> LinkMessage list \<Rightarrow> LinkMessage list" where
  "exampleNew msg links =
     (case msg of
        NewLink t name parent kind data \<Rightarrow>
          links @ [\<lparr>lm_Family = 0, lm_Type = t,
                     lm_Index = 1 + foldr max (map lm_Index links) 0,
                     lm_Flags = 0, lm_Change = 0,
                     lm_Attributes = \<lparr>la_Name = name, la_Type = parent, la_MTU = 1420,
                       la_Info = Some \<lparr>li_Kind = kind, li_Data = data\<rparr>\<rparr>\<rparr>]
      | _ \<Rightarrow> links)"

definition exampleSet :: "LinkRequest \<Rightarrow> LinkMessage \<Rightarrow> LinkMessage" where
  "exampleSet msg l =
     (case msg of
        SetFlags f t idx flags change \<Rightarrow>
          if lm_Index l = idx
          then l\<lparr>lm_Flags := (lm_Flags l AND NOT change) OR (flags AND change)\<rparr> else l
      | SetMTU f t idx mtu \<Rightarrow>
          if lm_Index l = idx
          then l\<lparr>lm_Attributes := (lm_Attributes l)\<lparr>la_MTU := mtu\<rparr>\<rparr> else l
      | _ \<Rightarrow> l)"

definition exampleEnv :: "exampleWorld collaborators" where
  "exampleEnv =
     \<lparr>rt_List = (\<lambda>w. (Inr (ew_Specs w), w)),
      rt_AddFinalizer = (\<lambda>rid w. (None, w\<lparr>ew_Finalizers := rid # ew_Finalizers w\<rparr>)),
      rt_RemoveFinalizer =
        (\<lambda>rid w. (None, w\<lparr>ew_Finalizers := removeAll rid (ew_Finalizers w)\<rparr>)),
      rt_BumpLinkRefresh = (\<lambda>w. (None, w)),
      rt_ResetRestartBackoff = (\<lambda>w. w),
      conn_List = (\<lambda>w. ((ew_Links w, None), w)),
      conn_Delete =
        (\<lambda>idx w. (None, w\<lparr>ew_Links := filter (\<lambda>l. lm_Index l \<noteq> idx) (ew_Links w)\<rparr>)),
      conn_New = (\<lambda>msg w. (None, w\<lparr>ew_Links := exampleNew msg (ew_Links w)\<rparr>)),
      conn_Set = (\<lambda>msg w. (None, w\<lparr>ew_Links := map (exampleSet msg) (ew_Links w)\<rparr>)),
      wgClient = None\<rparr>"

text \<open>A parser for the examples: a key or an address is its text, byte by byte, and the
  empty text does not parse.\<close>

definition exampleBytes :: "string \<Rightarrow> bytes" where
  "exampleBytes s = map (\<lambda>c. of_nat (of_char c)) s"

definition exampleCodec :: codec where
  "exampleCodec =
     \<lparr>ParseKey = (\<lambda>s. if s = [] then Inl (External ''bad key'') else Inr (exampleBytes s)),
      KeyString = map (\<lambda>b. char_of (unat b)),
      ResolveUDPAddr =
        (\<lambda>s. if s = [] then Inl (External ''bad address'')
             else Inr \<lparr>udp_IP = exampleBytes s, udp_Port = 0, udp_Zone = []\<rparr>),
      AddrString = (\<lambda>a. map (\<lambda>b. char_of (unat b)) (udp_IP a)),
      PrefixIPNet = (\<lambda>p. \<lparr>net_IP = pfx_Addr p, net_Mask = []\<rparr>),
      FromStdIPNet = (\<lambda>n. \<lparr>pfx_Addr = net_IP n, pfx_Bits = 0\<rparr>),
      SortSpec = (\<lambda>spec. spec),
      EqualSpec = (\<lambda>a b. a = b)\<rparr>"

text \<open>A second parser for the examples, under which several texts denote one key: it reads
  the first character of a key only, as a base64 decoder that ignores the unused bits of
  the last character accepts several texts for one key.\<close>

definition exampleLooseCodec :: codec where
  "exampleLooseCodec =
     exampleCodec\<lparr>ParseKey :=
       (\<lambda>s. if s = [] then Inl (External ''bad key'') else Inr (exampleBytes (take 1 s)))\<rparr>"

definition exampleLink :: "string \<Rightarrow> 32 word \<Rightarrow> 16 word \<Rightarrow> LinkInfo option \<Rightarrow> 32 word
    \<Rightarrow> LinkMessage" where
  "exampleLink name idx t info mtu =
     \<lparr>lm_Family = 0, lm_Type = t, lm_Index = idx, lm_Flags = 0, lm_Change = 0,
      lm_Attributes = \<lparr>la_Name = name, la_Type = 0, la_MTU = mtu, la_Info = info\<rparr>\<rparr>"

definition exampleSpec :: "string \<Rightarrow> Phase \<Rightarrow> bool \<Rightarrow> string \<Rightarrow> 16 word \<Rightarrow> 32 word \<Rightarrow> LinkSpec" where
  "exampleSpec name phase logical kind t mtu =
     \<lparr>md_ID = name, md_Phase = phase, ls_Name = name, ls_Logical = logical, ls_Up = False,
      ls_MTU = mtu, ls_Kind = kind, ls_Type = t, ls_Wireguard = zeroSpec\<rparr>"

definition exampleState :: "LinkSpec list \<Rightarrow> LinkMessage list \<Rightarrow> exampleWorld state" where
  "exampleState specs links =
     \<lparr>world = \<lparr>ew_Specs = specs, ew_Links = links, ew_Finalizers = map md_ID specs\<rparr>,
      calls = []\<rparr>"

definition examplePeer :: "string \<Rightarrow> string \<Rightarrow> WireguardPeer" where
  "examplePeer key endpoint =
     \<lparr>wp_PublicKey = key, wp_PresharedKey = [], wp_Endpoint = endpoint,
      wp_PersistentKeepaliveInterval = 0, wp_AllowedIPs = []\<rparr>"

text \<open>The desired peer \<open>A\<close> of Example A, with every field set.\<close>

definition exampleFullPeer :: WireguardPeer where
  "exampleFullPeer =
     \<lparr>wp_PublicKey = ''A'', wp_PresharedKey = ''S'', wp_Endpoint = ''e'',
      wp_PersistentKeepaliveInterval = 25,
      wp_AllowedIPs = [\<lparr>pfx_Addr = [10, 0, 0, 0], pfx_Bits = 8\<rparr>]\<rparr>"

definition exampleWg :: "int \<Rightarrow> WireguardPeer list \<Rightarrow> WireguardSpec" where
  "exampleWg port peers =
     \<lparr>ws_PrivateKey = ''K'', ws_PublicKey = [], ws_ListenPort = port, ws_FirewallMark = 0,
      ws_Peers = peers\<rparr>"

definition kindInfo :: "string \<Rightarrow> LinkInfo option" where
  "kindInfo kind = Some \<lparr>li_Kind = kind, li_Data = []\<rparr>"

definition exampleDevice :: Device where
  "exampleDevice =
     \<lparr>dev_PrivateKey = exampleBytes ''K'', dev_PublicKey = exampleBytes ''P'',
      dev_ListenPort = 51820, dev_FirewallMark = 0,
      dev_Peers = [\<lparr>dp_PublicKey = exampleBytes ''A'', dp_PresharedKey = zeroKey,
                    dp_Endpoint = None, dp_PersistentKeepaliveInterval = 25,
                    dp_AllowedIPs = []\<rparr>]\<rparr>"

section \<open>Properties of the codec\<close>

subsection \<open>The merge loop and its decisions\<close>

lemma encodePeers_mergePeers:
  "encodePeers lib ls rs peers = encodeActions lib (mergePeers ls rs) peers"
  by (induction lib ls rs peers rule: encodePeers.induct) (auto split: sum.splits)

lemma peer_Equal_iff: "peer_Equal p q \<longleftrightarrow> p = q"
  by (cases p; cases q) (auto simp: peer_Equal_def)

lemma mergePeers_peers: "a \<in> set (mergePeers ls rs) \<Longrightarrow> actionPeer a \<in> set ls \<union> set rs"
  by (induction ls rs rule: mergePeers.induct) (auto split: if_splits)

lemma mergePeers_keys_sorted:
  "sorted_wrt (<) (map wp_PublicKey ls) \<Longrightarrow> sorted_wrt (<) (map wp_PublicKey rs) \<Longrightarrow>
     sorted_wrt (<) (map (wp_PublicKey \<circ> actionPeer) (mergePeers ls rs))"
proof (induction ls rs rule: mergePeers.induct)
  case 1 then show ?case by simp
next
  case (2 right rs)
  then show ?case by (auto dest!: mergePeers_peers)
next
  case (3 left ls)
  then show ?case by (auto dest!: mergePeers_peers)
next
  case (4 left ls right rs)
  then show ?case
    by (auto dest!: mergePeers_peers simp: peer_Equal_iff) (blast intro: order.strict_trans)+
qed

lemma parses_add:
  "parses lib p \<Longrightarrow>
     \<exists>pc. addPeerConfig lib p = Inr pc \<and> ParseKey lib (wp_PublicKey p) = Inr (pc_PublicKey pc) \<and>
          \<not> pc_Remove pc \<and> pc_ReplaceAllowedIPs pc \<and> peerState lib p = Some (installed pc)"
  by (auto simp: parses_def peerState_def addPeerConfig_def installed_def
      split: sum.splits if_splits)

lemma parses_delete: "parses lib p \<Longrightarrow> \<exists>pc. deletePeerConfig lib p = Inr pc \<and> ParseKey lib (wp_PublicKey p) = Inr (pc_PublicKey pc) \<and> pc_Remove pc \<and> \<not> pc_ReplaceAllowedIPs pc"
  by (auto simp: parses_def peerState_def deletePeerConfig_def split: sum.splits if_splits)

lemma parses_action: "parses lib (actionPeer a) \<Longrightarrow> \<exists>pc. actionConfig lib a = Inr pc \<and> ParseKey lib (wp_PublicKey (actionPeer a)) = Inr (pc_PublicKey pc) \<and> (pc_Remove pc \<noteq> pc_ReplaceAllowedIPs pc)"
  by (cases a) (auto dest: parses_add parses_delete)

lemma encodeActions_total:
  "\<forall>a\<in>set as. parses lib (actionPeer a) \<Longrightarrow>
     encodeActions lib as peers = Inr (peers @ map (projr \<circ> actionConfig lib) as)"
proof (induction as arbitrary: peers)
  case Nil then show ?case by simp
next
  case (Cons a as)
  from Cons.prems obtain pc where "actionConfig lib a = Inr pc" using parses_action[of lib a] by auto
  with Cons show ?case by (simp add: appendPeer_def)
qed

subsection \<open>Applying the decisions\<close>

lemma K_fresh:
  assumes inj: "\<forall>p\<in>A. \<forall>q\<in>A. K p = K q \<longrightarrow> wp_PublicKey p = wp_PublicKey q"
    and "x \<in> A" "S \<subseteq> A" "\<forall>y\<in>S. wp_PublicKey x \<noteq> wp_PublicKey y"
  shows "K x \<notin> K ` S"
  using assms by blast

lemma app_add:
  "\<not> pc_Remove pc \<Longrightarrow> pc_ReplaceAllowedIPs pc \<Longrightarrow>
     applyPeerConfig m pc = m(pc_PublicKey pc \<mapsto> installed pc)"
  by (simp add: applyPeerConfig_def)

lemma app_del: "pc_Remove pc \<Longrightarrow> applyPeerConfig m pc = m(pc_PublicKey pc := None)"
  by (simp add: applyPeerConfig_def)

lemma apply_merge:
  assumes enc: "\<forall>p\<in>A. pc_PublicKey (X p) = K p \<and> \<not> pc_Remove (X p) \<and> pc_ReplaceAllowedIPs (X p) \<and>
                    installed (X p) = E p \<and> pc_PublicKey (D p) = K p \<and> pc_Remove (D p)"
    and inj: "\<forall>p\<in>A. \<forall>q\<in>A. K p = K q \<longrightarrow> wp_PublicKey p = wp_PublicKey q"
    and fn: "\<forall>p q. wp_PublicKey p = wp_PublicKey q \<longrightarrow> K p = K q"
  shows "set ls \<union> set rs \<subseteq> A \<Longrightarrow>
         sorted_wrt (<) (map wp_PublicKey ls) \<Longrightarrow> sorted_wrt (<) (map wp_PublicKey rs) \<Longrightarrow>
         \<forall>q\<in>set ls. m (K q) = Some (E q) \<Longrightarrow>
         foldl applyPeerConfig m (map (cfgOf X D) (mergePeers ls rs)) k =
           (if k \<in> K ` set rs then map_of (map (\<lambda>p. (K p, E p)) rs) k
            else if k \<in> K ` set ls then None else m k)"
proof (induction ls rs arbitrary: m rule: mergePeers.induct)
  case 1
  then show ?case by simp
next
  case (2 right rs)
  have ne: "\<forall>y\<in>set rs. wp_PublicKey right \<noteq> wp_PublicKey y" using 2(4) by auto
  have mem: "right \<in> A" "set rs \<subseteq> A" using 2(2) by auto
  have nk: "K right \<notin> K ` set rs" by (rule K_fresh[OF inj mem ne])
  have e: "pc_PublicKey (X right) = K right" "\<not> pc_Remove (X right)"
    "pc_ReplaceAllowedIPs (X right)" "installed (X right) = E right" using enc mem(1) by blast+
  have "foldl applyPeerConfig (applyPeerConfig m (X right)) (map (cfgOf X D) (mergePeers [] rs)) k =
          (if k \<in> K ` set rs then map_of (map (\<lambda>p. (K p, E p)) rs) k
            else if k \<in> K ` set [] then None else (applyPeerConfig m (X right)) k)"
  proof (rule 2(1))
    show "set [] \<union> set rs \<subseteq> A" using mem by simp
    show "sorted_wrt (<) (map wp_PublicKey [])" by simp
    show "sorted_wrt (<) (map wp_PublicKey rs)" using 2(4) by simp
    show "\<forall>q\<in>set []. applyPeerConfig m (X right) (K q) = Some (E q)" by simp
  qed
  then show ?case using nk e by (simp add: app_add app_del)
next
  case (3 left ls)
  have ne: "\<forall>y\<in>set ls. wp_PublicKey left \<noteq> wp_PublicKey y" using 3(3) by auto
  have mem: "left \<in> A" "set ls \<subseteq> A" using 3(2) by auto
  have nk: "K left \<notin> K ` set ls" by (rule K_fresh[OF inj mem ne])
  then have nk': "\<forall>q\<in>set ls. K q \<noteq> K left" by (metis image_eqI)
  have e: "pc_PublicKey (D left) = K left" "pc_Remove (D left)" using enc mem(1) by blast+
  have "foldl applyPeerConfig (applyPeerConfig m (D left)) (map (cfgOf X D) (mergePeers ls [])) k =
          (if k \<in> K ` set [] then map_of (map (\<lambda>p. (K p, E p)) []) k
            else if k \<in> K ` set ls then None else (applyPeerConfig m (D left)) k)"
  proof (rule 3(1))
    show "set ls \<union> set [] \<subseteq> A" using mem by simp
    show "sorted_wrt (<) (map wp_PublicKey ls)" using 3(3) by simp
    show "sorted_wrt (<) (map wp_PublicKey [])" by simp
    show "\<forall>q\<in>set ls. applyPeerConfig m (D left) (K q) = Some (E q)"
      using 3(5) nk' e by (auto simp: app_add app_del)
  qed
  then show ?case using nk e by (simp add: app_add app_del)
next
  case (4 left ls right rs)
  have mem: "left \<in> A" "right \<in> A" "set ls \<subseteq> A" "set rs \<subseteq> A" using "4.prems"(1) by auto
  have sl: "sorted_wrt (<) (map wp_PublicKey ls)" "\<forall>y\<in>set ls. wp_PublicKey left < wp_PublicKey y"
    using "4.prems"(2) by auto
  have sr: "sorted_wrt (<) (map wp_PublicKey rs)" "\<forall>y\<in>set rs. wp_PublicKey right < wp_PublicKey y"
    using "4.prems"(3) by auto
  have el: "pc_PublicKey (D left) = K left" "pc_Remove (D left)" using enc mem(1) by blast+
  have er: "pc_PublicKey (X right) = K right" "\<not> pc_Remove (X right)"
    "pc_ReplaceAllowedIPs (X right)" "installed (X right) = E right" using enc mem(2) by blast+
  have nl: "K left \<notin> K ` set ls"
    by (rule K_fresh[OF inj mem(1) mem(3)]) (use sl in auto)
  then have nl': "\<forall>q\<in>set ls. K q \<noteq> K left" by (metis image_eqI)
  have nr: "K right \<notin> K ` set rs"
    by (rule K_fresh[OF inj mem(2) mem(4)]) (use sr in auto)
  consider (gt) "wp_PublicKey left > wp_PublicKey right"
    | (lt) "wp_PublicKey left < wp_PublicKey right"
    | (eq) "wp_PublicKey left = wp_PublicKey right"
    by (rule linorder_cases[of "wp_PublicKey left" "wp_PublicKey right"]) auto
  then show ?case
  proof cases
    case gt
    have "\<forall>y\<in>set (left # ls). wp_PublicKey right \<noteq> wp_PublicKey y" 
      using gt sl(2) by (auto dest: order.strict_trans)
    then have nrl: "K right \<notin> K ` set (left # ls)"
      by (intro K_fresh[OF inj mem(2)]) (use mem in auto)
    then have nrl': "\<forall>q\<in>set (left # ls). K q \<noteq> K right" by (metis image_eqI)
    have "foldl applyPeerConfig (applyPeerConfig m (X right)) (map (cfgOf X D) (mergePeers (left # ls) rs)) k =
          (if k \<in> K ` set rs then map_of (map (\<lambda>p. (K p, E p)) rs) k
            else if k \<in> K ` set (left # ls) then None else (applyPeerConfig m (X right)) k)"
    proof (rule "4.IH"(1)[OF gt])
      show "set (left # ls) \<union> set rs \<subseteq> A" using mem by simp
      show "sorted_wrt (<) (map wp_PublicKey (left # ls))" using "4.prems"(2) .
      show "sorted_wrt (<) (map wp_PublicKey rs)" using sr by simp
      show "\<forall>q\<in>set (left # ls). applyPeerConfig m (X right) (K q) = Some (E q)"
        using "4.prems"(4) nrl' er by (auto simp: app_add app_del)
    qed
    then show ?thesis using gt nr nrl er by (simp add: app_add app_del)
  next
    case lt
    then have ngt: "\<not> wp_PublicKey left > wp_PublicKey right" by simp
    have "\<forall>y\<in>set (right # rs). wp_PublicKey left \<noteq> wp_PublicKey y" 
      using lt sr(2) by (auto dest: order.strict_trans)
    then have nlr: "K left \<notin> K ` set (right # rs)"
      by (intro K_fresh[OF inj mem(1)]) (use mem in auto)
    have "foldl applyPeerConfig (applyPeerConfig m (D left)) (map (cfgOf X D) (mergePeers ls (right # rs))) k =
          (if k \<in> K ` set (right # rs) then map_of (map (\<lambda>p. (K p, E p)) (right # rs)) k
            else if k \<in> K ` set ls then None else (applyPeerConfig m (D left)) k)"
    proof (rule "4.IH"(2)[OF ngt lt])
      show "set ls \<union> set (right # rs) \<subseteq> A" using mem by simp
      show "sorted_wrt (<) (map wp_PublicKey ls)" using sl by simp
      show "sorted_wrt (<) (map wp_PublicKey (right # rs))" using "4.prems"(3) .
      show "\<forall>q\<in>set ls. applyPeerConfig m (D left) (K q) = Some (E q)"
        using "4.prems"(4) nl' el by (auto simp: app_add app_del)
    qed
    then show ?thesis using lt ngt nl nlr el by (simp add: app_add app_del)
  next
    case eq
    then have ngt: "\<not> wp_PublicKey left > wp_PublicKey right" and nlt: "\<not> wp_PublicKey left < wp_PublicKey right" by simp_all
    have "\<forall>y\<in>set rs. wp_PublicKey left \<noteq> wp_PublicKey y" using eq sr(2) by auto
    then have nlr: "K left \<notin> K ` set rs"
      by (intro K_fresh[OF inj mem(1)]) (use mem in auto)
    have "\<forall>y\<in>set ls. wp_PublicKey right \<noteq> wp_PublicKey y" using eq sl(2) by auto
    then have nrl: "K right \<notin> K ` set ls"
      by (intro K_fresh[OF inj mem(2)]) (use mem in auto)
    then have nrl': "\<forall>q\<in>set ls. K q \<noteq> K right" by (metis image_eqI)
    have keq: "wp_PublicKey right = wp_PublicKey left" using eq by simp
    have ml: "m (K left) = Some (E left)" using "4.prems"(4) by simp
    have kk: "K left = K right" using fn eq by blast
    show ?thesis
    proof (cases "peer_Equal left right")
      case True
      then have lr: "left = right" by (simp add: peer_Equal_iff)
      have nn: "\<not> \<not> peer_Equal left right" using True by simp
      have "foldl applyPeerConfig m (map (cfgOf X D) (mergePeers ls rs)) k =
          (if k \<in> K ` set rs then map_of (map (\<lambda>p. (K p, E p)) rs) k
            else if k \<in> K ` set ls then None else m k)"
      proof (rule "4.IH"(4)[OF ngt nlt nn])
        show "set ls \<union> set rs \<subseteq> A" using mem by simp
        show "sorted_wrt (<) (map wp_PublicKey ls)" using sl by simp
        show "sorted_wrt (<) (map wp_PublicKey rs)" using sr by simp
        show "\<forall>q\<in>set ls. m (K q) = Some (E q)" using "4.prems"(4) by simp
      qed
      then show ?thesis using True ngt nlt nl nr ml lr kk by simp
    next
      case False
      have "foldl applyPeerConfig (applyPeerConfig m (X right)) (map (cfgOf X D) (mergePeers ls rs)) k =
          (if k \<in> K ` set rs then map_of (map (\<lambda>p. (K p, E p)) rs) k
            else if k \<in> K ` set ls then None else (applyPeerConfig m (X right)) k)"
      proof (rule "4.IH"(3)[OF ngt nlt False])
        show "set ls \<union> set rs \<subseteq> A" using mem by simp
        show "sorted_wrt (<) (map wp_PublicKey ls)" using sl by simp
        show "sorted_wrt (<) (map wp_PublicKey rs)" using sr by simp
        show "\<forall>q\<in>set ls. applyPeerConfig m (X right) (K q) = Some (E q)"
          using "4.prems"(4) nrl' er by (auto simp: app_add app_del)
      qed
      then show ?thesis using False ngt nlt nl nr nrl er kk by (simp add: app_add app_del)
    qed
  qed
qed

lemma peerTable_foldl: "peerTable lib ps = foldl (tableStep lib) Map.empty ps"
  by (simp add: peerTable_def)

lemma foldl_tableStep:
  assumes E: "\<forall>p\<in>A. peerState lib p = Some (E p) \<and> dp_PublicKey (E p) = K p"
  shows "set ps \<subseteq> A \<Longrightarrow> distinct (map K ps) \<Longrightarrow>
     foldl (tableStep lib) m ps k =
       (if k \<in> K ` set ps then map_of (map (\<lambda>p. (K p, E p)) ps) k else m k)"
proof (induction ps arbitrary: m)
  case Nil
  then show ?case by simp
next
  case (Cons p ps)
  have p: "peerState lib p = Some (E p)" "dp_PublicKey (E p) = K p" using E Cons.prems(1) by auto
  have nk: "K p \<notin> K ` set ps" using Cons.prems(2) by simp
  have st: "tableStep lib m p = m(K p \<mapsto> E p)" using p by (simp add: tableStep_def)
  have "foldl (tableStep lib) (tableStep lib m p) ps k =
       (if k \<in> K ` set ps then map_of (map (\<lambda>p. (K p, E p)) ps) k else (tableStep lib m p) k)"
    by (rule Cons.IH) (use Cons.prems in auto)
  then show ?case using nk by (simp add: st)
qed

lemma sorted_distinct_K:
  assumes inj: "\<forall>p\<in>A. \<forall>q\<in>A. K p = K q \<longrightarrow> wp_PublicKey p = wp_PublicKey q"
  shows "set ps \<subseteq> A \<Longrightarrow> sorted_wrt (<) (map wp_PublicKey ps) \<Longrightarrow> distinct (map K ps)"
proof (induction ps)
  case Nil
  then show ?case by simp
next
  case (Cons p ps)
  have "\<forall>y\<in>set ps. wp_PublicKey p \<noteq> wp_PublicKey y" using Cons.prems(2) by auto
  then have "K p \<notin> K ` set ps"
    by (intro K_fresh[OF inj]) (use Cons.prems in auto)
  then show ?case using Cons by simp
qed

subsection \<open>Counting the decisions\<close>

lemma mismatched_iff:
  "k \<in> mismatched ls rs \<longleftrightarrow>
     (\<exists>p\<in>set rs. \<exists>q\<in>set ls. wp_PublicKey p = k \<and> wp_PublicKey q = k \<and> \<not> peer_Equal q p)"
proof
  assume "k \<in> mismatched ls rs"
  then obtain p where "p \<in> set rs" "wp_PublicKey p = k"
    "\<exists>q\<in>set ls. wp_PublicKey q = wp_PublicKey p \<and> \<not> peer_Equal q p"
    unfolding mismatched_def by auto
  then show "\<exists>p\<in>set rs. \<exists>q\<in>set ls. wp_PublicKey p = k \<and> wp_PublicKey q = k \<and> \<not> peer_Equal q p"
    by metis
next
  assume "\<exists>p\<in>set rs. \<exists>q\<in>set ls. wp_PublicKey p = k \<and> wp_PublicKey q = k \<and> \<not> peer_Equal q p"
  then obtain p q where "p \<in> set rs" "q \<in> set ls" "wp_PublicKey p = k" "wp_PublicKey q = k"
    "\<not> peer_Equal q p" by blast
  then have "p \<in> set (filter (\<lambda>p. \<exists>q\<in>set ls. wp_PublicKey q = wp_PublicKey p \<and> \<not> peer_Equal q p) rs)"
    by auto
  then show "k \<in> mismatched ls rs"
    unfolding mismatched_def using \<open>wp_PublicKey p = k\<close> by blast
qed

lemma peerKeys_iff: "k \<in> peerKeys ps \<longleftrightarrow> (\<exists>p\<in>set ps. wp_PublicKey p = k)"
  unfolding peerKeys_def by blast

lemma mismatched_sub: "mismatched ls rs \<subseteq> peerKeys ls \<inter> peerKeys rs"
  unfolding subset_iff Int_iff mismatched_iff peerKeys_iff by blast

lemma finite_mismatched: "finite (mismatched ls rs)"
proof -
  have "mismatched ls rs \<subseteq> peerKeys rs" using mismatched_sub[of ls rs] by blast
  then show ?thesis by (rule finite_subset) (simp add: peerKeys_def)
qed

lemma mismatched_Nil [simp]: "mismatched [] rs = {}" "mismatched ls [] = {}"
  by (auto simp: mismatched_def)

lemma mismatched_skip_right:
  assumes "wp_PublicKey r \<notin> peerKeys ls"
  shows "mismatched ls (r # rs) = mismatched ls rs"
proof (rule set_eqI)
  fix k
  show "k \<in> mismatched ls (r # rs) \<longleftrightarrow> k \<in> mismatched ls rs"
    using assms unfolding mismatched_iff peerKeys_iff list.set by blast
qed

lemma mismatched_skip_left:
  assumes "wp_PublicKey l \<notin> peerKeys rs"
  shows "mismatched (l # ls) rs = mismatched ls rs"
proof (rule set_eqI)
  fix k
  have r: "\<forall>p\<in>set rs. wp_PublicKey p \<noteq> wp_PublicKey l" using assms unfolding peerKeys_iff by metis
  show "k \<in> mismatched (l # ls) rs \<longleftrightarrow> k \<in> mismatched ls rs"
  proof
    assume "k \<in> mismatched (l # ls) rs"
    then obtain p q where pq: "p \<in> set rs" "q \<in> set (l # ls)" "wp_PublicKey p = k" "wp_PublicKey q = k" "\<not> peer_Equal q p"
      unfolding mismatched_iff by blast
    with r have "q \<noteq> l" by metis
    with pq have "q \<in> set ls" by simp
    with pq show "k \<in> mismatched ls rs" unfolding mismatched_iff by blast
  next
    assume "k \<in> mismatched ls rs"
    then obtain p q where "p \<in> set rs" "q \<in> set ls" "wp_PublicKey p = k" "wp_PublicKey q = k" "\<not> peer_Equal q p"
      unfolding mismatched_iff by blast
    then have "p \<in> set rs" "q \<in> set (l # ls)" "wp_PublicKey p = k" "wp_PublicKey q = k" "\<not> peer_Equal q p" by simp_all
    then show "k \<in> mismatched (l # ls) rs" unfolding mismatched_iff by blast
  qed
qed

lemma mismatched_both:
  assumes "wp_PublicKey l = wp_PublicKey r" "wp_PublicKey l \<notin> peerKeys ls" "wp_PublicKey r \<notin> peerKeys rs"
  shows "mismatched (l # ls) (r # rs) =
       (if peer_Equal l r then mismatched ls rs else insert (wp_PublicKey r) (mismatched ls rs))"
proof -
  have l: "\<forall>q\<in>set ls. wp_PublicKey q \<noteq> wp_PublicKey r" using assms(1,2) unfolding peerKeys_iff by metis
  have r: "\<forall>p\<in>set rs. wp_PublicKey p \<noteq> wp_PublicKey r" using assms(3) unfolding peerKeys_iff by metis
  have "mismatched (l # ls) (r # rs) = (if peer_Equal l r then {} else {wp_PublicKey r}) \<union> mismatched ls rs"
  proof (rule set_eqI)
    fix k
    show "k \<in> mismatched (l # ls) (r # rs) \<longleftrightarrow> k \<in> (if peer_Equal l r then {} else {wp_PublicKey r}) \<union> mismatched ls rs"
    proof
      assume "k \<in> mismatched (l # ls) (r # rs)"
      then obtain p q where pq: "p \<in> set (r # rs)" "q \<in> set (l # ls)" "wp_PublicKey p = k" "wp_PublicKey q = k" "\<not> peer_Equal q p"
        unfolding mismatched_iff by blast
      show "k \<in> (if peer_Equal l r then {} else {wp_PublicKey r}) \<union> mismatched ls rs"
      proof (cases "p = r")
        case True
        with pq l have "q = l" by auto
        with True pq show ?thesis by auto
      next
        case False
        with pq have p: "p \<in> set rs" by simp
        with r pq assms(1) have "q \<noteq> l" by metis
        with pq have "q \<in> set ls" by simp
        with p pq show ?thesis unfolding Un_iff mismatched_iff by blast
      qed
    next
      assume "k \<in> (if peer_Equal l r then {} else {wp_PublicKey r}) \<union> mismatched ls rs"
      then consider "\<not> peer_Equal l r" "k = wp_PublicKey r" | "k \<in> mismatched ls rs"
        by (auto split: if_splits)
      then show "k \<in> mismatched (l # ls) (r # rs)"
      proof cases
        case 1
        have "r \<in> set (r # rs)" "l \<in> set (l # ls)" by simp_all
        with 1 assms(1) show ?thesis unfolding mismatched_iff by blast
      next
        case 2
        then obtain p q where "p \<in> set rs" "q \<in> set ls" "wp_PublicKey p = k" "wp_PublicKey q = k" "\<not> peer_Equal q p"
          unfolding mismatched_iff by blast
        then have "p \<in> set (r # rs)" "q \<in> set (l # ls)" "wp_PublicKey p = k" "wp_PublicKey q = k" "\<not> peer_Equal q p" by simp_all
        then show ?thesis unfolding mismatched_iff by blast
      qed
    qed
  qed
  then show ?thesis by auto
qed

lemma peerKeys_simps [simp]: "peerKeys [] = {}" "peerKeys (p # ps) = insert (wp_PublicKey p) (peerKeys ps)"
  by (auto simp: peerKeys_def)

lemma finite_peerKeys [simp]: "finite (peerKeys ps)"
  by (simp add: peerKeys_def)

lemma sorted_fresh: "sorted_wrt (<) (map wp_PublicKey (p # ps)) \<Longrightarrow> wp_PublicKey p \<notin> peerKeys ps"
  by (auto simp: peerKeys_def)

lemma sorted_less: "sorted_wrt (<) (map wp_PublicKey (p # ps)) \<Longrightarrow> k \<in> peerKeys ps \<Longrightarrow> wp_PublicKey p < k"
  by (auto simp: peerKeys_def)

lemma mergePeers_length:
  "sorted_wrt (<) (map wp_PublicKey ls) \<Longrightarrow> sorted_wrt (<) (map wp_PublicKey rs) \<Longrightarrow>
     length (mergePeers ls rs) =
       card (peerKeys ls - peerKeys rs) + card (peerKeys rs - peerKeys ls) + card (mismatched ls rs)"
proof (induction ls rs rule: mergePeers.induct)
  case 1
  then show ?case by simp
next
  case (2 right rs)
  have f: "wp_PublicKey right \<notin> peerKeys rs" using "2.prems"(2) by (rule sorted_fresh)
  have "length (mergePeers [] rs) = card (peerKeys [] - peerKeys rs) + card (peerKeys rs - peerKeys []) + card (mismatched [] rs)"
    using 2 by simp
  then show ?case using f by simp
next
  case (3 left ls)
  have f: "wp_PublicKey left \<notin> peerKeys ls" using "3.prems"(1) by (rule sorted_fresh)
  have "length (mergePeers ls []) = card (peerKeys ls - peerKeys []) + card (peerKeys [] - peerKeys ls) + card (mismatched ls [])"
    using 3 by simp
  then show ?case using f by simp
next
  case (4 left ls right rs)
  have fl: "wp_PublicKey left \<notin> peerKeys ls" using "4.prems"(1) by (rule sorted_fresh)
  have fr: "wp_PublicKey right \<notin> peerKeys rs" using "4.prems"(2) by (rule sorted_fresh)
  have sl: "sorted_wrt (<) (map wp_PublicKey ls)" using "4.prems"(1) by simp
  have sr: "sorted_wrt (<) (map wp_PublicKey rs)" using "4.prems"(2) by simp
  consider (gt) "wp_PublicKey left > wp_PublicKey right"
    | (lt) "wp_PublicKey left < wp_PublicKey right"
    | (eq) "wp_PublicKey left = wp_PublicKey right"
    by (rule linorder_cases[of "wp_PublicKey left" "wp_PublicKey right"]) auto
  then show ?case
  proof cases
    case gt
    have n: "wp_PublicKey right \<notin> peerKeys (left # ls)"
      using gt sorted_less[OF "4.prems"(1)] by (auto dest: order.strict_trans)
    have ih: "length (mergePeers (left # ls) rs) =
       card (peerKeys (left # ls) - peerKeys rs) + card (peerKeys rs - peerKeys (left # ls)) + card (mismatched (left # ls) rs)"
      using "4.IH"(1)[OF gt "4.prems"(1) sr] .
    have a: "peerKeys (left # ls) - peerKeys (right # rs) = peerKeys (left # ls) - peerKeys rs"
      using n by auto
    have b: "peerKeys (right # rs) - peerKeys (left # ls) = insert (wp_PublicKey right) (peerKeys rs - peerKeys (left # ls))"
      using n by auto
    have c: "mismatched (left # ls) (right # rs) = mismatched (left # ls) rs"
      using n by (rule mismatched_skip_right)
    have "card (peerKeys (right # rs) - peerKeys (left # ls)) = Suc (card (peerKeys rs - peerKeys (left # ls)))"
      unfolding b using fr by (subst card_insert_disjoint) auto
    moreover have "mergePeers (left # ls) (right # rs) = AddPeer right # mergePeers (left # ls) rs"
      using gt by simp
    ultimately show ?thesis unfolding a c using ih by simp
  next
    case lt
    then have ngt: "\<not> wp_PublicKey left > wp_PublicKey right" by simp
    have n: "wp_PublicKey left \<notin> peerKeys (right # rs)"
      using lt sorted_less[OF "4.prems"(2)] by (auto dest: order.strict_trans)
    have ih: "length (mergePeers ls (right # rs)) =
       card (peerKeys ls - peerKeys (right # rs)) + card (peerKeys (right # rs) - peerKeys ls) + card (mismatched ls (right # rs))"
      using "4.IH"(2)[OF ngt lt sl "4.prems"(2)] .
    have a: "peerKeys (right # rs) - peerKeys (left # ls) = peerKeys (right # rs) - peerKeys ls"
      using n by auto
    have b: "peerKeys (left # ls) - peerKeys (right # rs) = insert (wp_PublicKey left) (peerKeys ls - peerKeys (right # rs))"
      using n by auto
    have c: "mismatched (left # ls) (right # rs) = mismatched ls (right # rs)"
      using n by (rule mismatched_skip_left)
    have "card (peerKeys (left # ls) - peerKeys (right # rs)) = Suc (card (peerKeys ls - peerKeys (right # rs)))"
      unfolding b using fl by (subst card_insert_disjoint) auto
    moreover have "mergePeers (left # ls) (right # rs) = DeletePeer left # mergePeers ls (right # rs)"
      using lt ngt by simp
    ultimately show ?thesis unfolding a c using ih by simp
  next
    case eq
    then have ngt: "\<not> wp_PublicKey left > wp_PublicKey right" and nlt: "\<not> wp_PublicKey left < wp_PublicKey right" by simp_all
    have a: "peerKeys (left # ls) - peerKeys (right # rs) = peerKeys ls - peerKeys rs"
      using eq fl by auto
    have b: "peerKeys (right # rs) - peerKeys (left # ls) = peerKeys rs - peerKeys ls"
      using eq fr by auto
    have c: "mismatched (left # ls) (right # rs) =
       (if peer_Equal left right then mismatched ls rs else insert (wp_PublicKey right) (mismatched ls rs))"
      using eq fl fr by (rule mismatched_both)
    have nm: "wp_PublicKey right \<notin> mismatched ls rs" using mismatched_sub[of ls rs] fr by auto
    show ?thesis
    proof (cases "peer_Equal left right")
      case True
      then have nn: "\<not> \<not> peer_Equal left right" by simp
      have "length (mergePeers ls rs) = card (peerKeys ls - peerKeys rs) + card (peerKeys rs - peerKeys ls) + card (mismatched ls rs)"
        using "4.IH"(4)[OF ngt nlt nn sl sr] .
      moreover have "mergePeers (left # ls) (right # rs) = mergePeers ls rs"
        using True ngt nlt by simp
      moreover have "mismatched (left # ls) (right # rs) = mismatched ls rs" using c True by simp
      ultimately show ?thesis unfolding a b by simp
    next
      case False
      have "length (mergePeers ls rs) = card (peerKeys ls - peerKeys rs) + card (peerKeys rs - peerKeys ls) + card (mismatched ls rs)"
        using "4.IH"(3)[OF ngt nlt False sl sr] .
      moreover have "card (insert (wp_PublicKey right) (mismatched ls rs)) = Suc (card (mismatched ls rs))"
        using nm finite_mismatched by (simp add: card_insert_disjoint)
      moreover have "mergePeers (left # ls) (right # rs) = AddPeer right # mergePeers ls rs"
        using False ngt nlt by simp
      moreover have "mismatched (left # ls) (right # rs) = insert (wp_PublicKey right) (mismatched ls rs)"
        using c False by simp
      ultimately show ?thesis unfolding a b by simp
    qed
  qed
qed

subsection \<open>The example codec\<close>

lemmas example_defs = exampleEnv_def exampleCodec_def exampleLink_def exampleSpec_def
  exampleState_def exampleNew_def exampleSet_def exampleBytes_def kindInfo_def zeroSpec_def
  examplePeer_def exampleWg_def

lemma exampleBytes_inverse: "map (\<lambda>b. char_of (unat b)) (exampleBytes s) = s"
  by (induction s) (simp_all add: exampleBytes_def unat_of_nat)

lemma exampleCodec_KeyString: "KeyString exampleCodec (exampleBytes s) = s"
  by (simp add: exampleCodec_def exampleBytes_inverse)

lemma exampleCodec_ParseKey_inj: "inj_on (ParseKey exampleCodec) {s. s \<noteq> []}"
proof (rule inj_onI)
  fix x y :: string
  assume "x \<in> {s. s \<noteq> []}" "y \<in> {s. s \<noteq> []}"
    and "ParseKey exampleCodec x = ParseKey exampleCodec y"
  then have "exampleBytes x = exampleBytes y" by (simp add: exampleCodec_def)
  then have "map (\<lambda>b. char_of (unat b)) (exampleBytes x) = map (\<lambda>b. char_of (unat b)) (exampleBytes y)"
    by simp
  then show "x = y" by (simp only: exampleBytes_inverse)
qed

subsection \<open>The merge diff\<close>

text \<open>Claim C1, with the conditions the code needs. Let both peer lists be strictly ascending
  by public key (no key twice in a list), let the keys, preshared keys and endpoints of all
  peers parse, distinct key texts to distinct keys, and let the private key parse if it
  changed. Then \<^verbatim>\<open>Encode\<close> succeeds, and for its peer entries:
  applying them to the table of the existing peers gives exactly the table of the desired
  peers (the same keys, each with the desired preshared key, endpoint, keepalive interval
  and allowed IPs); their number is the size of the
  symmetric difference of the two key sets plus the number of shared keys with different
  content; their keys are, in order, the parsed forms of a strictly ascending list of key
  texts of the two lists; and each is either a remove entry or an add/replace entry with
  \<^verbatim>\<open>ReplaceAllowedIPs\<close>. The table of a peer list holds, under each parsed public key, the
  peer with the fields of the declared peer.\<close>

theorem Encode_merge_diff:
  assumes sd: "sorted_wrt (<) (map wp_PublicKey (ws_Peers spec))"
    and se: "sorted_wrt (<) (map wp_PublicKey (ws_Peers existing))"
    and ps: "\<forall>p\<in>set (ws_Peers spec) \<union> set (ws_Peers existing). parses lib p"
    and inj: "inj_on (ParseKey lib) (peerKeys (ws_Peers spec) \<union> peerKeys (ws_Peers existing))"
    and pk: "ws_PrivateKey existing \<noteq> ws_PrivateKey spec \<longrightarrow> \<not> isl (ParseKey lib (ws_PrivateKey spec))"
  shows "\<exists>cfg. Encode lib spec existing = Inr cfg \<and>
           applyPeers (peerTable lib (ws_Peers existing)) (cfg_Peers cfg) = peerTable lib (ws_Peers spec) \<and>
           length (cfg_Peers cfg) =
             card ((peerKeys (ws_Peers existing) - peerKeys (ws_Peers spec)) \<union>
                   (peerKeys (ws_Peers spec) - peerKeys (ws_Peers existing)))
             + card (mismatched (ws_Peers existing) (ws_Peers spec)) \<and>
           (\<exists>ks. sorted_wrt (<) ks \<and>
                 set ks \<subseteq> peerKeys (ws_Peers spec) \<union> peerKeys (ws_Peers existing) \<and>
                 map (\<lambda>pc. Inr (pc_PublicKey pc)) (cfg_Peers cfg) = map (ParseKey lib) ks) \<and>
           (\<forall>pc\<in>set (cfg_Peers cfg). pc_Remove pc \<noteq> pc_ReplaceAllowedIPs pc)"
proof -
  define ls where "ls = ws_Peers existing"
  define rs where "rs = ws_Peers spec"
  define A where "A = set ls \<union> set rs"
  define K where "K = (\<lambda>p::WireguardPeer. projr (ParseKey lib (wp_PublicKey p)))"
  define X where "X = (\<lambda>p. projr (addPeerConfig lib p))"
  define E where "E = (\<lambda>p. the (peerState lib p))"
  define D where "D = (\<lambda>p. projr (deletePeerConfig lib p))"
  define acts where "acts = mergePeers ls rs"
  define pcs where "pcs = map (projr \<circ> actionConfig lib) acts"
  have pA: "\<forall>p\<in>A. parses lib p" using ps by (auto simp: A_def ls_def rs_def)
  have encE: "\<forall>p\<in>A. peerState lib p = Some (E p) \<and> dp_PublicKey (E p) = K p"
  proof
    fix p assume "p \<in> A"
    then have "parses lib p" using pA by simp
    from parses_add[OF this] obtain pc where "addPeerConfig lib p = Inr pc"
      "ParseKey lib (wp_PublicKey p) = Inr (pc_PublicKey pc)" "peerState lib p = Some (installed pc)"
      by blast
    then show "peerState lib p = Some (E p) \<and> dp_PublicKey (E p) = K p"
      by (simp add: E_def K_def installed_def)
  qed
  have enc: "\<forall>p\<in>A. pc_PublicKey (X p) = K p \<and> \<not> pc_Remove (X p) \<and> pc_ReplaceAllowedIPs (X p) \<and>
                    installed (X p) = E p \<and> pc_PublicKey (D p) = K p \<and> pc_Remove (D p)"
  proof
    fix p assume p: "p \<in> A"
    then have pp: "parses lib p" using pA by simp
    obtain pc where a: "addPeerConfig lib p = Inr pc" "ParseKey lib (wp_PublicKey p) = Inr (pc_PublicKey pc)"
      "\<not> pc_Remove pc" "pc_ReplaceAllowedIPs pc" "peerState lib p = Some (installed pc)"
      using parses_add[OF pp] by blast
    obtain pd where d: "deletePeerConfig lib p = Inr pd" "ParseKey lib (wp_PublicKey p) = Inr (pc_PublicKey pd)" "pc_Remove pd"
      using parses_delete[OF pp] by blast
    show "pc_PublicKey (X p) = K p \<and> \<not> pc_Remove (X p) \<and> pc_ReplaceAllowedIPs (X p) \<and>
            installed (X p) = E p \<and> pc_PublicKey (D p) = K p \<and> pc_Remove (D p)"
      using a d by (simp add: X_def E_def D_def K_def)
  qed
  have parsedK: "\<forall>p\<in>A. ParseKey lib (wp_PublicKey p) = Inr (K p)"
  proof
    fix p assume "p \<in> A"
    then have "parses lib p" using pA by simp
    from parses_add[OF this] obtain pc where "addPeerConfig lib p = Inr pc" "ParseKey lib (wp_PublicKey p) = Inr (pc_PublicKey pc)"
      by blast
    then show "ParseKey lib (wp_PublicKey p) = Inr (K p)" by (simp add: K_def)
  qed
  have injK: "\<forall>p\<in>A. \<forall>q\<in>A. K p = K q \<longrightarrow> wp_PublicKey p = wp_PublicKey q"
  proof (intro ballI impI)
    fix p q assume p: "p \<in> A" and q: "q \<in> A" and e: "K p = K q"
    have eq: "ParseKey lib (wp_PublicKey p) = ParseKey lib (wp_PublicKey q)"
      using parsedK p q e by simp
    have mp: "wp_PublicKey p \<in> peerKeys (ws_Peers spec) \<union> peerKeys (ws_Peers existing)"
      using p by (auto simp: A_def ls_def rs_def peerKeys_def)
    have mq: "wp_PublicKey q \<in> peerKeys (ws_Peers spec) \<union> peerKeys (ws_Peers existing)"
      using q by (auto simp: A_def ls_def rs_def peerKeys_def)
    show "wp_PublicKey p = wp_PublicKey q" by (rule inj_onD[OF inj eq mp mq])
  qed
  have fn: "\<forall>p q. wp_PublicKey p = wp_PublicKey q \<longrightarrow> K p = K q" by (simp add: K_def)
  have sl: "sorted_wrt (<) (map wp_PublicKey ls)" using se by (simp add: ls_def)
  have sr: "sorted_wrt (<) (map wp_PublicKey rs)" using sd by (simp add: rs_def)
  have sub: "set ls \<union> set rs \<subseteq> A" by (simp add: A_def)
  have actsA: "\<forall>a\<in>set acts. actionPeer a \<in> A"
    using mergePeers_peers[of _ ls rs] by (auto simp: acts_def A_def)
  then have actsP: "\<forall>a\<in>set acts. parses lib (actionPeer a)" using pA by blast
  have peers: "encodePeers lib ls rs [] = Inr pcs"
    unfolding encodePeers_mergePeers pcs_def acts_def[symmetric]
    using encodeActions_total[OF actsP, of "[]"] by simp
  have "\<exists>privateKey. (if ws_PrivateKey existing \<noteq> ws_PrivateKey spec
            then (case ParseKey lib (ws_PrivateKey spec) of
                    Inl err \<Rightarrow> Inl err
                  | Inr key \<Rightarrow> Inr (Some key))
            else Inr None) = Inr privateKey"
    using pk by (cases "ParseKey lib (ws_PrivateKey spec)") simp_all
  then obtain privateKey where priv: "(if ws_PrivateKey existing \<noteq> ws_PrivateKey spec
            then (case ParseKey lib (ws_PrivateKey spec) of
                    Inl err \<Rightarrow> Inl err
                  | Inr key \<Rightarrow> Inr (Some key))
            else Inr None) = Inr privateKey"
    by blast
  define cfg where "cfg = \<lparr>cfg_PrivateKey = privateKey,
                    cfg_ListenPort =
                      (if ws_ListenPort existing \<noteq> ws_ListenPort spec
                       then Some (ws_ListenPort spec) else None),
                    cfg_FirewallMark =
                      (if ws_FirewallMark existing \<noteq> ws_FirewallMark spec
                       then Some (ws_FirewallMark spec) else None),
                    cfg_Peers = pcs\<rparr>"
  have enc_ok: "Encode lib spec existing = Inr cfg"
    unfolding Encode_def priv using peers by (simp add: ls_def rs_def cfg_def)
  have cp: "cfg_Peers cfg = pcs" by (simp add: cfg_def)
  have pcs_cfgOf: "pcs = map (cfgOf X D) acts"
    unfolding pcs_def
  proof (rule map_cong[OF refl])
    fix a assume "a \<in> set acts"
    show "(projr \<circ> actionConfig lib) a = cfgOf X D a"
      by (cases a) (simp_all add: X_def D_def)
  qed
  have dl: "distinct (map K ls)" using sorted_distinct_K[OF injK _ sl] sub by simp
  have dr: "distinct (map K rs)" using sorted_distinct_K[OF injK _ sr] sub by simp
  have tl: "\<And>k. peerTable lib ls k = (if k \<in> K ` set ls then map_of (map (\<lambda>p. (K p, E p)) ls) k else None)"
    unfolding peerTable_foldl using foldl_tableStep[OF encE _ dl, of Map.empty] sub by simp
  have tr: "\<And>k. peerTable lib rs k = (if k \<in> K ` set rs then map_of (map (\<lambda>p. (K p, E p)) rs) k else None)"
    unfolding peerTable_foldl using foldl_tableStep[OF encE _ dr, of Map.empty] sub by simp
  have tlq: "\<forall>q\<in>set ls. peerTable lib ls (K q) = Some (E q)"
  proof
    fix q assume q: "q \<in> set ls"
    have "map_of (map (\<lambda>p. (K p, E p)) ls) (K q) = Some (E q)"
      using dl q by (intro map_of_is_SomeI) (auto simp: comp_def)
    then show "peerTable lib ls (K q) = Some (E q)" using q by (simp add: tl)
  qed
  have app: "applyPeers (peerTable lib ls) pcs = peerTable lib rs"
  proof (rule ext)
    fix k
    have "foldl applyPeerConfig (peerTable lib ls) (map (cfgOf X D) (mergePeers ls rs)) k =
           (if k \<in> K ` set rs then map_of (map (\<lambda>p. (K p, E p)) rs) k
            else if k \<in> K ` set ls then None else peerTable lib ls k)"
      by (rule apply_merge[OF enc injK fn sub sl sr tlq])
    then show "applyPeers (peerTable lib ls) pcs k = peerTable lib rs k"
      unfolding applyPeers_def pcs_cfgOf acts_def by (simp add: tl tr)
  qed
  have len: "length pcs = card ((peerKeys ls - peerKeys rs) \<union> (peerKeys rs - peerKeys ls)) + card (mismatched ls rs)"
  proof -
    have "card ((peerKeys ls - peerKeys rs) \<union> (peerKeys rs - peerKeys ls)) =
            card (peerKeys ls - peerKeys rs) + card (peerKeys rs - peerKeys ls)"
      by (rule card_Un_disjoint) auto
    then show ?thesis using mergePeers_length[OF sl sr] by (simp add: pcs_def acts_def)
  qed
  have ord1: "sorted_wrt (<) (map (wp_PublicKey \<circ> actionPeer) acts)"
    unfolding acts_def by (rule mergePeers_keys_sorted[OF sl sr])
  have ord2: "map (\<lambda>pc. Inr (pc_PublicKey pc)) pcs = map (ParseKey lib) (map (wp_PublicKey \<circ> actionPeer) acts)"
    unfolding pcs_def map_map
  proof (rule map_cong[OF refl])
    fix a assume "a \<in> set acts"
    then have "parses lib (actionPeer a)" using actsP by simp
    from parses_action[OF this] obtain pc where "actionConfig lib a = Inr pc" "ParseKey lib (wp_PublicKey (actionPeer a)) = Inr (pc_PublicKey pc)"
      by blast
    then show "((\<lambda>pc. Inr (pc_PublicKey pc)) \<circ> (projr \<circ> actionConfig lib)) a = (ParseKey lib \<circ> (wp_PublicKey \<circ> actionPeer)) a"
      by simp
  qed
  have ord3: "set (map (wp_PublicKey \<circ> actionPeer) acts)
                \<subseteq> peerKeys (ws_Peers spec) \<union> peerKeys (ws_Peers existing)"
    using actsA by (auto simp: A_def ls_def rs_def peerKeys_def)
  have kinds: "\<forall>pc\<in>set pcs. pc_Remove pc \<noteq> pc_ReplaceAllowedIPs pc"
  proof
    fix pc assume "pc \<in> set pcs"
    then obtain a where a: "a \<in> set acts" "pc = projr (actionConfig lib a)" by (auto simp: pcs_def)
    then have "parses lib (actionPeer a)" using actsP by simp
    from parses_action[OF this] obtain pc' where "actionConfig lib a = Inr pc'" "pc_Remove pc' \<noteq> pc_ReplaceAllowedIPs pc'"
      by blast
    with a show "pc_Remove pc \<noteq> pc_ReplaceAllowedIPs pc" by simp
  qed
  show ?thesis
  proof (intro exI conjI)
    show "Encode lib spec existing = Inr cfg" by (rule enc_ok)
    show "applyPeers (peerTable lib (ws_Peers existing)) (cfg_Peers cfg) = peerTable lib (ws_Peers spec)"
      using app unfolding cp ls_def rs_def .
    show "length (cfg_Peers cfg) =
             card ((peerKeys (ws_Peers existing) - peerKeys (ws_Peers spec)) \<union>
                   (peerKeys (ws_Peers spec) - peerKeys (ws_Peers existing)))
             + card (mismatched (ws_Peers existing) (ws_Peers spec))"
      using len unfolding cp ls_def rs_def .
    show "sorted_wrt (<) (map (wp_PublicKey \<circ> actionPeer) acts)" by (rule ord1)
    show "set (map (wp_PublicKey \<circ> actionPeer) acts)
            \<subseteq> peerKeys (ws_Peers spec) \<union> peerKeys (ws_Peers existing)" by (rule ord3)
    show "map (\<lambda>pc. Inr (pc_PublicKey pc)) (cfg_Peers cfg) =
            map (ParseKey lib) (map (wp_PublicKey \<circ> actionPeer) acts)"
      using ord2 unfolding cp .
    show "\<forall>pc\<in>set (cfg_Peers cfg). pc_Remove pc \<noteq> pc_ReplaceAllowedIPs pc"
      using kinds unfolding cp .
  qed
qed

text \<open>Claim C1 as it is stated, for every pair of lists sorted ascending, fails in three
  ways, one for each condition of the theorem. A key that occurs twice: desired \<open>[A, A]\<close>
  against existing \<open>[A]\<close>, all three peers equal; both lists are sorted, the first \<open>A\<close>
  is matched and skipped, the second is added, so the patch has one entry, while the key
  sets are equal and no content differs. A key that does not parse: \<^verbatim>\<open>Encode\<close> returns the
  parser's error and no patch. Two texts of one key: existing \<open>[AB]\<close> against desired
  \<open>[AA]\<close> under a parser that gives both the key of \<open>A\<close>; the desired text sorts first,
  so the key is added and then removed, and the device ends without the desired peer.\<close>

theorem merge_diff_duplicate_key:
  "sorted (map wp_PublicKey [examplePeer ''A'' [], examplePeer ''A'' []])
   \<and> sorted (map wp_PublicKey [examplePeer ''A'' []])
   \<and> Encode exampleCodec (exampleWg 0 [examplePeer ''A'' [], examplePeer ''A'' []])
        (exampleWg 0 [examplePeer ''A'' []])
      = Inr \<lparr>cfg_PrivateKey = None, cfg_ListenPort = None, cfg_FirewallMark = None,
             cfg_Peers = [\<lparr>pc_PublicKey = exampleBytes ''A'', pc_Remove = False,
                           pc_PresharedKey = None, pc_Endpoint = None,
                           pc_PersistentKeepaliveInterval = Some 0,
                           pc_ReplaceAllowedIPs = True, pc_AllowedIPs = []\<rparr>]\<rparr>
   \<and> card ((peerKeys [examplePeer ''A'' []] - peerKeys [examplePeer ''A'' [], examplePeer ''A'' []])
          \<union> (peerKeys [examplePeer ''A'' [], examplePeer ''A'' []] - peerKeys [examplePeer ''A'' []]))
       + card (mismatched [examplePeer ''A'' []] [examplePeer ''A'' [], examplePeer ''A'' []]) = 0
   \<and> Encode exampleCodec (exampleWg 0 [examplePeer [] []]) (exampleWg 0 [])
      = Inl (External ''bad key'')
   \<and> Encode exampleLooseCodec (exampleWg 0 [examplePeer ''AA'' []])
        (exampleWg 0 [examplePeer ''AB'' []])
      = Inr \<lparr>cfg_PrivateKey = None, cfg_ListenPort = None, cfg_FirewallMark = None,
             cfg_Peers = [\<lparr>pc_PublicKey = exampleBytes ''A'', pc_Remove = False,
                           pc_PresharedKey = None, pc_Endpoint = None,
                           pc_PersistentKeepaliveInterval = Some 0,
                           pc_ReplaceAllowedIPs = True, pc_AllowedIPs = []\<rparr>,
                          \<lparr>pc_PublicKey = exampleBytes ''A'', pc_Remove = True,
                           pc_PresharedKey = None, pc_Endpoint = None,
                           pc_PersistentKeepaliveInterval = None,
                           pc_ReplaceAllowedIPs = False, pc_AllowedIPs = []\<rparr>]\<rparr>
   \<and> applyPeers (peerTable exampleLooseCodec [examplePeer ''AB'' []])
        [\<lparr>pc_PublicKey = exampleBytes ''A'', pc_Remove = False,
          pc_PresharedKey = None, pc_Endpoint = None,
          pc_PersistentKeepaliveInterval = Some 0,
          pc_ReplaceAllowedIPs = True, pc_AllowedIPs = []\<rparr>,
         \<lparr>pc_PublicKey = exampleBytes ''A'', pc_Remove = True,
          pc_PresharedKey = None, pc_Endpoint = None,
          pc_PersistentKeepaliveInterval = None,
          pc_ReplaceAllowedIPs = False, pc_AllowedIPs = []\<rparr>] (exampleBytes ''A'') = None
   \<and> peerTable exampleLooseCodec [examplePeer ''AA'' []] (exampleBytes ''A'')
      = Some \<lparr>dp_PublicKey = exampleBytes ''A'', dp_PresharedKey = zeroKey, dp_Endpoint = None,
              dp_PersistentKeepaliveInterval = 0, dp_AllowedIPs = []\<rparr>"
  by (simp add: Encode_def addPeerConfig_def deletePeerConfig_def appendPeer_def peer_Equal_def
      peerKeys_def mismatched_def applyPeers_def applyPeerConfig_def peerTable_def tableStep_def
      peerState_def exampleLooseCodec_def example_defs)

text \<open>Example A of the spec as an instance of the theorem: desired \<open>[A, C]\<close>, existing
  \<open>[A', B]\<close> gives replace \<open>A\<close>, remove \<open>B\<close>, add \<open>C\<close>, in this order. The desired
  \<open>A\<close> has a preshared key, an endpoint, a keepalive interval and an allowed prefix, the
  existing \<open>A'\<close> has none of them; after the patch the device holds the desired \<open>A\<close> with
  all four.\<close>

theorem Encode_merge_diff_witness:
  "Encode exampleCodec (exampleWg 0 [exampleFullPeer, examplePeer ''C'' []])
      (exampleWg 0 [examplePeer ''A'' [], examplePeer ''B'' []])
     = Inr \<lparr>cfg_PrivateKey = None, cfg_ListenPort = None, cfg_FirewallMark = None,
            cfg_Peers =
              [\<lparr>pc_PublicKey = exampleBytes ''A'', pc_Remove = False,
                 pc_PresharedKey = Some (exampleBytes ''S''),
                 pc_Endpoint = Some \<lparr>udp_IP = exampleBytes ''e'', udp_Port = 0, udp_Zone = []\<rparr>,
                 pc_PersistentKeepaliveInterval = Some 25,
                 pc_ReplaceAllowedIPs = True,
                 pc_AllowedIPs = [\<lparr>net_IP = [10, 0, 0, 0], net_Mask = []\<rparr>]\<rparr>,
               \<lparr>pc_PublicKey = exampleBytes ''B'', pc_Remove = True, pc_PresharedKey = None,
                 pc_Endpoint = None, pc_PersistentKeepaliveInterval = None,
                 pc_ReplaceAllowedIPs = False, pc_AllowedIPs = []\<rparr>,
               \<lparr>pc_PublicKey = exampleBytes ''C'', pc_Remove = False, pc_PresharedKey = None,
                 pc_Endpoint = None, pc_PersistentKeepaliveInterval = Some 0,
                 pc_ReplaceAllowedIPs = True, pc_AllowedIPs = []\<rparr>]\<rparr>
   \<and> (\<exists>cfg. Encode exampleCodec (exampleWg 0 [exampleFullPeer, examplePeer ''C'' []])
               (exampleWg 0 [examplePeer ''A'' [], examplePeer ''B'' []]) = Inr cfg
            \<and> applyPeers (peerTable exampleCodec [examplePeer ''A'' [], examplePeer ''B'' []])
                 (cfg_Peers cfg)
               = peerTable exampleCodec [exampleFullPeer, examplePeer ''C'' []]
            \<and> length (cfg_Peers cfg) = 3)
   \<and> peerTable exampleCodec [exampleFullPeer, examplePeer ''C'' []] (exampleBytes ''A'')
      = Some \<lparr>dp_PublicKey = exampleBytes ''A'', dp_PresharedKey = exampleBytes ''S'',
              dp_Endpoint = Some \<lparr>udp_IP = exampleBytes ''e'', udp_Port = 0, udp_Zone = []\<rparr>,
              dp_PersistentKeepaliveInterval = 25,
              dp_AllowedIPs = [\<lparr>net_IP = [10, 0, 0, 0], net_Mask = []\<rparr>]\<rparr>"
proof -
  let ?spec = "exampleWg 0 [exampleFullPeer, examplePeer ''C'' []]"
  let ?existing = "exampleWg 0 [examplePeer ''A'' [], examplePeer ''B'' []]"
  have 1: "sorted_wrt (<) (map wp_PublicKey (ws_Peers ?spec))"
    and 2: "sorted_wrt (<) (map wp_PublicKey (ws_Peers ?existing))"
    and 3: "\<forall>p\<in>set (ws_Peers ?spec) \<union> set (ws_Peers ?existing). parses exampleCodec p"
    and 5: "ws_PrivateKey ?existing \<noteq> ws_PrivateKey ?spec \<longrightarrow>
              \<not> isl (ParseKey exampleCodec (ws_PrivateKey ?spec))"
    by (simp_all add: example_defs exampleFullPeer_def parses_def peerState_def peerKeys_def)
  have 4: "inj_on (ParseKey exampleCodec) (peerKeys (ws_Peers ?spec) \<union> peerKeys (ws_Peers ?existing))"
    by (rule inj_on_subset[OF exampleCodec_ParseKey_inj])
      (simp add: peerKeys_def exampleWg_def examplePeer_def exampleFullPeer_def)
  have e: "Encode exampleCodec ?spec ?existing
     = Inr \<lparr>cfg_PrivateKey = None, cfg_ListenPort = None, cfg_FirewallMark = None,
            cfg_Peers =
              [\<lparr>pc_PublicKey = exampleBytes ''A'', pc_Remove = False,
                 pc_PresharedKey = Some (exampleBytes ''S''),
                 pc_Endpoint = Some \<lparr>udp_IP = exampleBytes ''e'', udp_Port = 0, udp_Zone = []\<rparr>,
                 pc_PersistentKeepaliveInterval = Some 25,
                 pc_ReplaceAllowedIPs = True,
                 pc_AllowedIPs = [\<lparr>net_IP = [10, 0, 0, 0], net_Mask = []\<rparr>]\<rparr>,
               \<lparr>pc_PublicKey = exampleBytes ''B'', pc_Remove = True, pc_PresharedKey = None,
                 pc_Endpoint = None, pc_PersistentKeepaliveInterval = None,
                 pc_ReplaceAllowedIPs = False, pc_AllowedIPs = []\<rparr>,
               \<lparr>pc_PublicKey = exampleBytes ''C'', pc_Remove = False, pc_PresharedKey = None,
                 pc_Endpoint = None, pc_PersistentKeepaliveInterval = Some 0,
                 pc_ReplaceAllowedIPs = True, pc_AllowedIPs = []\<rparr>]\<rparr>"
    by (simp add: Encode_def addPeerConfig_def deletePeerConfig_def appendPeer_def peer_Equal_def
        example_defs exampleFullPeer_def)
  have t: "peerTable exampleCodec [exampleFullPeer, examplePeer ''C'' []] (exampleBytes ''A'')
      = Some \<lparr>dp_PublicKey = exampleBytes ''A'', dp_PresharedKey = exampleBytes ''S'',
              dp_Endpoint = Some \<lparr>udp_IP = exampleBytes ''e'', udp_Port = 0, udp_Zone = []\<rparr>,
              dp_PersistentKeepaliveInterval = 25,
              dp_AllowedIPs = [\<lparr>net_IP = [10, 0, 0, 0], net_Mask = []\<rparr>]\<rparr>"
    by (simp add: peerTable_def tableStep_def peerState_def example_defs exampleFullPeer_def)
  have p: "ws_Peers ?spec = [exampleFullPeer, examplePeer ''C'' []]"
    "ws_Peers ?existing = [examplePeer ''A'' [], examplePeer ''B'' []]"
    by (simp_all add: exampleWg_def)
  from Encode_merge_diff[OF 1 2 3 4 5] obtain cfg where
    c: "Encode exampleCodec ?spec ?existing = Inr cfg"
       "applyPeers (peerTable exampleCodec (ws_Peers ?existing)) (cfg_Peers cfg)
          = peerTable exampleCodec (ws_Peers ?spec)"
    by blast
  from c(1) have "length (cfg_Peers cfg) = 3" unfolding e by auto
  with c have "\<exists>cfg. Encode exampleCodec ?spec ?existing = Inr cfg
            \<and> applyPeers (peerTable exampleCodec [examplePeer ''A'' [], examplePeer ''B'' []])
                 (cfg_Peers cfg)
               = peerTable exampleCodec [exampleFullPeer, examplePeer ''C'' []]
            \<and> length (cfg_Peers cfg) = 3"
    unfolding p by blast
  with e t show ?thesis by blast
qed

subsection \<open>Listen port and firewall mark\<close>

text \<open>Claim C5: in the patch that \<^verbatim>\<open>Encode\<close> returns, \<^verbatim>\<open>ListenPort\<close> is present exactly
  when the desired listen port differs from the existing one, and then it is the desired
  value, zero included; the same holds for \<^verbatim>\<open>FirewallMark\<close>.\<close>

theorem Encode_ports_only_if_changed:
  assumes "Encode lib spec existing = Inr cfg"
  shows "cfg_ListenPort cfg =
           (if ws_ListenPort existing \<noteq> ws_ListenPort spec then Some (ws_ListenPort spec) else None)
       \<and> cfg_FirewallMark cfg =
           (if ws_FirewallMark existing \<noteq> ws_FirewallMark spec then Some (ws_FirewallMark spec)
            else None)"
  using assms by (auto simp: Encode_def split: sum.splits if_splits)

text \<open>Example B of the spec: desired listen port 0, existing 51820; the patch carries
  \<^verbatim>\<open>ListenPort = 0\<close>.\<close>

theorem Encode_ports_only_if_changed_witness:
  "Encode exampleCodec (exampleWg 0 []) (exampleWg 51820 []) =
     Inr \<lparr>cfg_PrivateKey = None, cfg_ListenPort = Some 0, cfg_FirewallMark = None, cfg_Peers = []\<rparr>
   \<and> cfg_ListenPort \<lparr>cfg_PrivateKey = None, cfg_ListenPort = Some 0, cfg_FirewallMark = None,
                       cfg_Peers = []\<rparr>
       = (if ws_ListenPort (exampleWg 51820 []) \<noteq> ws_ListenPort (exampleWg 0 [])
          then Some (ws_ListenPort (exampleWg 0 [])) else None)"
proof -
  have e: "Encode exampleCodec (exampleWg 0 []) (exampleWg 51820 []) =
     Inr \<lparr>cfg_PrivateKey = None, cfg_ListenPort = Some 0, cfg_FirewallMark = None, cfg_Peers = []\<rparr>"
    by (simp add: Encode_def exampleWg_def)
  from Encode_ports_only_if_changed[OF e] e show ?thesis by blast
qed

subsection \<open>Decode\<close>

text \<open>Claim C9: \<^verbatim>\<open>Decode\<close> produces one peer for each raw peer, in order; a preshared key
  equal to the zero key becomes the empty string, any other its text; an absent endpoint
  stays empty, a present one becomes its text; with \<open>isStatus\<close> the public key of the
  device goes to the public key field and the private key field is left alone, without it
  the private key of the device goes to the private key field and the public key field is
  left alone.\<close>

theorem Decode_peers_and_keys:
  "length (ws_Peers (Decode lib spec dev isStatus)) = length (dev_Peers dev)
   \<and> (\<forall>i<length (dev_Peers dev).
        wp_PresharedKey (ws_Peers (Decode lib spec dev isStatus) ! i) =
          (if dp_PresharedKey (dev_Peers dev ! i) = zeroKey then []
           else KeyString lib (dp_PresharedKey (dev_Peers dev ! i)))
      \<and> wp_Endpoint (ws_Peers (Decode lib spec dev isStatus) ! i) =
          (case dp_Endpoint (dev_Peers dev ! i) of
             None \<Rightarrow> []
           | Some addr \<Rightarrow> AddrString lib addr)
      \<and> wp_PublicKey (ws_Peers (Decode lib spec dev isStatus) ! i) =
          KeyString lib (dp_PublicKey (dev_Peers dev ! i)))
   \<and> (isStatus \<longrightarrow>
        ws_PublicKey (Decode lib spec dev isStatus) = KeyString lib (dev_PublicKey dev)
        \<and> ws_PrivateKey (Decode lib spec dev isStatus) = ws_PrivateKey spec)
   \<and> (\<not> isStatus \<longrightarrow>
        ws_PrivateKey (Decode lib spec dev isStatus) = KeyString lib (dev_PrivateKey dev)
        \<and> ws_PublicKey (Decode lib spec dev isStatus) = ws_PublicKey spec)"
  by (simp add: Decode_def decodePeer_def zeroPeer_def Let_def split: option.splits)

text \<open>An instance: a device with one peer that has no endpoint and the zero preshared key,
  decoded as status and as configuration.\<close>

theorem Decode_peers_and_keys_witness:
  "wp_PresharedKey (ws_Peers (Decode exampleCodec zeroSpec exampleDevice True) ! 0) = []
   \<and> wp_Endpoint (ws_Peers (Decode exampleCodec zeroSpec exampleDevice True) ! 0) = []
   \<and> ws_PublicKey (Decode exampleCodec zeroSpec exampleDevice True) = ''P''
   \<and> ws_PrivateKey (Decode exampleCodec zeroSpec exampleDevice True) = []
   \<and> ws_PrivateKey (Decode exampleCodec zeroSpec exampleDevice False) = ''K''"
  using Decode_peers_and_keys[of exampleCodec zeroSpec exampleDevice True]
        Decode_peers_and_keys[of exampleCodec zeroSpec exampleDevice False]
  by (simp add: exampleDevice_def exampleCodec_KeyString zeroSpec_def)

section \<open>Properties of the reconciler\<close>

subsection \<open>Lookup and calls\<close>

lemmas call_defs = perform_def ListSpecs_def AddFinalizer_def RemoveFinalizer_def BumpLinkRefresh_def
  ResetRestartBackoff_def LinkList_def LinkDelete_def LinkNew_def LinkSet_def DeviceOf_def ConfigureDevice_def

lemmas sync_defs = syncLink_def syncTearingDown_def syncRunning_def resolveLink_def checkKind_def
  createLink_def syncWireguard_def syncUp_def syncMTU_def FindLink_def LinkKindWireguard_def IFF_UP_def




lemma checkKind_mismatch:
  assumes "ls_Logical link" "FindLink links (ls_Name link) = Some i"
    and "la_Info (lm_Attributes (links ! i)) = Some info"
    and "lm_Type (links ! i) \<noteq> ls_Type link \<or> li_Kind info \<noteq> ls_Kind link"
  shows "checkKind env links link st =
           (case conn_Delete env (lm_Index (links ! i)) (world st) of
              (Some err, w) \<Rightarrow>
                (Inl (Some (ErrDeletingLink (ls_Name link) err)),
                 \<lparr>world = w, calls = calls st @ [CallLinkDelete (lm_Index (links ! i))]\<rparr>)
            | (None, w) \<Rightarrow>
                (Inr None, \<lparr>world = w, calls = calls st @ [CallLinkDelete (lm_Index (links ! i))]\<rparr>))"
  using assms by (auto simp: checkKind_def call_defs split: prod.splits option.splits)

lemma createLink_calls_prefix:
  assumes "ls_Logical link" "ls_Kind link = LinkKindWireguard"
    and "createLink env links link st = (r, links1, st1)"
  shows "\<exists>rest. calls st1 =
           calls st @ CallLinkNew (NewLink (ls_Type link) (ls_Name link) 0 (ls_Kind link) []) # rest"
  using assms
  by (auto simp: createLink_def call_defs split: prod.splits option.splits if_splits)




lemma syncWireguard_calls:
  "syncWireguard env lib link st = (r, st1) \<Longrightarrow>
     \<exists>new. calls st1 = calls st @ new \<and> (\<forall>c\<in>set new. \<not> isSetMTU c)"
  by (auto simp: syncWireguard_def call_defs isSetMTU_def Let_def
      split: option.splits if_splits prod.splits sum.splits)

lemma syncUp_calls:
  "syncUp env links i link st = (r, st1) \<Longrightarrow>
     \<exists>new. calls st1 = calls st @ new \<and> (\<forall>c\<in>set new. \<not> isSetMTU c)"
  by (auto simp: syncUp_def call_defs isSetMTU_def Let_def
      split: option.splits if_splits prod.splits sum.splits)

lemma syncMTU_result:
  "syncMTU env links i link st =
     (if ls_MTU link \<noteq> 0 \<and> la_MTU (lm_Attributes (links ! i)) \<noteq> ls_MTU link
      then (case conn_Set env (SetMTU (lm_Family (links ! i)) (lm_Type (links ! i))
                                (lm_Index (links ! i)) (ls_MTU link)) (world st) of
              (r, w) \<Rightarrow>
                (map_option (ErrSettingMTU (ls_Name link)) r,
                 (if r = None
                  then links[i := (links ! i)\<lparr>lm_Attributes :=
                                  (lm_Attributes (links ! i))\<lparr>la_MTU := ls_MTU link\<rparr>\<rparr>]
                  else links),
                 \<lparr>world = w,
                  calls = calls st @ [CallLinkSet (SetMTU (lm_Family (links ! i)) (lm_Type (links ! i))
                                        (lm_Index (links ! i)) (ls_MTU link))]\<rparr>))
      else (None, links, st))"
  by (auto simp: syncMTU_def call_defs Let_def split: option.splits prod.splits)

lemma syncMTU_calls:
  "syncMTU env links i link st = (r, links1, st1) \<Longrightarrow>
     \<exists>new. calls st1 = calls st @ new \<and>
       (\<forall>c\<in>set new. isSetMTU c \<longrightarrow> ls_MTU link \<noteq> 0 \<and>
          (\<exists>f t x. c = CallLinkSet (SetMTU f t x (ls_MTU link))))"
  by (auto simp: syncMTU_result split: if_splits prod.splits)

lemma syncRunning_calls:
  assumes "syncRunning env lib links link st = (r, links', st')"
    and "resolveLink env links link st = (a, links1, st1)"
  shows "\<exists>new. calls st' = calls st1 @ new \<and>
           (\<forall>c\<in>set new. isSetMTU c \<longrightarrow> ls_MTU link \<noteq> 0 \<and>
              (\<exists>f t x. c = CallLinkSet (SetMTU f t x (ls_MTU link))))"
proof (cases a)
  case (Inl ret)
  with assms show ?thesis by (simp add: syncRunning_def)
next
  case (Inr i)
  obtain r2 st2 where w: "syncWireguard env lib link st1 = (r2, st2)"
    by (cases "syncWireguard env lib link st1")
  from syncWireguard_calls[OF w] obtain n2 where
    n2: "calls st2 = calls st1 @ n2" "\<forall>c\<in>set n2. \<not> isSetMTU c" by blast
  show ?thesis
  proof (cases r2)
    case (Some e)
    with assms Inr w n2 show ?thesis by (auto simp: syncRunning_def)
  next
    case None
    obtain r3 st3 where u: "syncUp env links1 i link st2 = (r3, st3)"
      by (cases "syncUp env links1 i link st2")
    from syncUp_calls[OF u] obtain n3 where
      n3: "calls st3 = calls st2 @ n3" "\<forall>c\<in>set n3. \<not> isSetMTU c" by blast
    show ?thesis
    proof (cases r3)
      case (Some e)
      with assms Inr w None u n2 n3 show ?thesis by (auto simp: syncRunning_def)
    next
      case N3: None
      from assms Inr w None u N3 have m: "syncMTU env links1 i link st3 = (r, links', st')"
        by (simp add: syncRunning_def)
      from syncMTU_calls[OF m] obtain n4 where n4: "calls st' = calls st3 @ n4"
        "\<forall>c\<in>set n4. isSetMTU c \<longrightarrow> ls_MTU link \<noteq> 0 \<and>
            (\<exists>f t x. c = CallLinkSet (SetMTU f t x (ls_MTU link)))" by blast
      have "calls st' = calls st1 @ (n2 @ n3 @ n4)" using n2 n3 n4 by simp
      moreover have "\<forall>c\<in>set (n2 @ n3 @ n4). isSetMTU c \<longrightarrow> ls_MTU link \<noteq> 0 \<and>
            (\<exists>f t x. c = CallLinkSet (SetMTU f t x (ls_MTU link)))"
        using n2 n3 n4 by auto
      ultimately show ?thesis by blast
    qed
  qed
qed

subsection \<open>Tearing down\<close>

lemma syncLink_teardown_absent:
  assumes "md_Phase link = PhaseTearingDown" "\<not> ls_Logical link \<or> FindLink links (ls_Name link) = None"
  shows "syncLink env lib links link st =
           (map_option ErrRemovingFinalizer (fst (rt_RemoveFinalizer env (md_ID link) (world st))),
            links,
            \<lparr>world = snd (rt_RemoveFinalizer env (md_ID link) (world st)),
             calls = calls st @ [CallRemoveFinalizer (md_ID link)]\<rparr>)"
  using assms
  by (auto simp: syncLink_def syncTearingDown_def RemoveFinalizer_def perform_def split: prod.splits)

lemma syncLink_teardown_present:
  assumes "md_Phase link = PhaseTearingDown" "ls_Logical link" "FindLink links (ls_Name link) = Some i"
    and "conn_Delete env (lm_Index (links ! i)) (world st) = (None, w1)"
    and "conn_List env w1 = ((links', None), w2)"
  shows "syncLink env lib links link st =
           (map_option ErrRemovingFinalizer (fst (rt_RemoveFinalizer env (md_ID link) w2)),
            links',
            \<lparr>world = snd (rt_RemoveFinalizer env (md_ID link) w2),
             calls = calls st @ [CallLinkDelete (lm_Index (links ! i)), CallLinkList,
                                 CallRemoveFinalizer (md_ID link)]\<rparr>)"
  using assms
  by (simp add: syncLink_def syncTearingDown_def call_defs split: prod.splits)

text \<open>Claim C7: the sync of an item that is being torn down. If the spec is not logical, or no
  kernel link has its name, the only call is the removal of the finalizer, the snapshot is
  unchanged, and the result is that of the removal: no error when the store removes the
  finalizer. If the spec is logical, a kernel link has its name, and the kernel deletes
  the link and lists the links without error, then the calls are the delete of that link,
  the listing, and the removal of the finalizer, in this order; the snapshot is the new
  listing.\<close>

theorem teardown_always_removes_finalizer:
  assumes "md_Phase link = PhaseTearingDown"
  shows "(\<not> ls_Logical link \<or> FindLink links (ls_Name link) = None \<longrightarrow>
            syncLink env lib links link st =
              (map_option ErrRemovingFinalizer (fst (rt_RemoveFinalizer env (md_ID link) (world st))),
               links,
               \<lparr>world = snd (rt_RemoveFinalizer env (md_ID link) (world st)),
                calls = calls st @ [CallRemoveFinalizer (md_ID link)]\<rparr>))
       \<and> (ls_Logical link \<and> FindLink links (ls_Name link) = Some i \<and>
            conn_Delete env (lm_Index (links ! i)) (world st) = (None, w1) \<and>
            conn_List env w1 = ((links', None), w2) \<longrightarrow>
            syncLink env lib links link st =
              (map_option ErrRemovingFinalizer (fst (rt_RemoveFinalizer env (md_ID link) w2)),
               links',
               \<lparr>world = snd (rt_RemoveFinalizer env (md_ID link) w2),
                calls = calls st @ [CallLinkDelete (lm_Index (links ! i)), CallLinkList,
                                    CallRemoveFinalizer (md_ID link)]\<rparr>))"
proof (intro conjI impI)
  assume "\<not> ls_Logical link \<or> FindLink links (ls_Name link) = None"
  then show "syncLink env lib links link st =
              (map_option ErrRemovingFinalizer (fst (rt_RemoveFinalizer env (md_ID link) (world st))),
               links,
               \<lparr>world = snd (rt_RemoveFinalizer env (md_ID link) (world st)),
                calls = calls st @ [CallRemoveFinalizer (md_ID link)]\<rparr>)"
    by (rule syncLink_teardown_absent[OF assms])
next
  assume a: "ls_Logical link \<and> FindLink links (ls_Name link) = Some i \<and>
            conn_Delete env (lm_Index (links ! i)) (world st) = (None, w1) \<and>
            conn_List env w1 = ((links', None), w2)"
  show "syncLink env lib links link st =
              (map_option ErrRemovingFinalizer (fst (rt_RemoveFinalizer env (md_ID link) w2)),
               links',
               \<lparr>world = snd (rt_RemoveFinalizer env (md_ID link) w2),
                calls = calls st @ [CallLinkDelete (lm_Index (links ! i)), CallLinkList,
                                    CallRemoveFinalizer (md_ID link)]\<rparr>)"
    by (rule syncLink_teardown_present[OF assms a[THEN conjunct1] a[THEN conjunct2, THEN conjunct1]
          a[THEN conjunct2, THEN conjunct2, THEN conjunct1]
          a[THEN conjunct2, THEN conjunct2, THEN conjunct2]])
qed

text \<open>Two instances: a logical spec without a kernel link, and one with its kernel link.\<close>

theorem teardown_always_removes_finalizer_witness:
  "syncLink exampleEnv exampleCodec [exampleLink ''eth0'' 2 1 None 1500]
     (exampleSpec ''bond0'' PhaseTearingDown True ''bond'' 1 0)
     (exampleState [exampleSpec ''bond0'' PhaseTearingDown True ''bond'' 1 0]
        [exampleLink ''eth0'' 2 1 None 1500])
   = (None, [exampleLink ''eth0'' 2 1 None 1500],
      \<lparr>world = \<lparr>ew_Specs = [exampleSpec ''bond0'' PhaseTearingDown True ''bond'' 1 0],
                 ew_Links = [exampleLink ''eth0'' 2 1 None 1500], ew_Finalizers = []\<rparr>,
       calls = [CallRemoveFinalizer ''bond0'']\<rparr>)
   \<and> syncLink exampleEnv exampleCodec
       [exampleLink ''eth0'' 2 1 None 1500, exampleLink ''bond0'' 7 1 (kindInfo ''bond'') 1500]
       (exampleSpec ''bond0'' PhaseTearingDown True ''bond'' 1 0)
       (exampleState [exampleSpec ''bond0'' PhaseTearingDown True ''bond'' 1 0]
          [exampleLink ''eth0'' 2 1 None 1500, exampleLink ''bond0'' 7 1 (kindInfo ''bond'') 1500])
   = (None, [exampleLink ''eth0'' 2 1 None 1500],
      \<lparr>world = \<lparr>ew_Specs = [exampleSpec ''bond0'' PhaseTearingDown True ''bond'' 1 0],
                 ew_Links = [exampleLink ''eth0'' 2 1 None 1500], ew_Finalizers = []\<rparr>,
       calls = [CallLinkDelete 7, CallLinkList, CallRemoveFinalizer ''bond0'']\<rparr>)"
proof -
  let ?link = "exampleSpec ''bond0'' PhaseTearingDown True ''bond'' 1 0"
  let ?l1 = "[exampleLink ''eth0'' 2 1 None 1500]"
  let ?l2 = "[exampleLink ''eth0'' 2 1 None 1500, exampleLink ''bond0'' 7 1 (kindInfo ''bond'') 1500]"
  have 1: "md_Phase ?link = PhaseTearingDown" by (simp add: example_defs)
  let ?w1 = "\<lparr>ew_Specs = [?link], ew_Links = ?l1, ew_Finalizers = [''bond0'']\<rparr>"
  from teardown_always_removes_finalizer[OF 1, where env=exampleEnv and lib=exampleCodec
         and links="?l1" and st="exampleState [?link] ?l1"]
       teardown_always_removes_finalizer[OF 1, where env=exampleEnv and lib=exampleCodec
         and links="?l2" and st="exampleState [?link] ?l2" and i=1 and ?w1.0="?w1"
         and links'="?l1" and ?w2.0="?w1"]
  show ?thesis
    by (simp add: example_defs FindLink_def)
qed

text \<open>Claim C10: for an item that is being torn down and is not logical, the sync calls
  nothing but the removal of the finalizer: no delete, no create, no modification of flags
  or MTU, no listing. The snapshot is unchanged, the collaborators' state changes only by
  the removal, and the result is that of the removal: no error when the store removes the
  finalizer.\<close>

theorem teardown_physical_touches_no_link:
  assumes "md_Phase link = PhaseTearingDown" "\<not> ls_Logical link"
  shows "syncLink env lib links link st =
           (map_option ErrRemovingFinalizer (fst (rt_RemoveFinalizer env (md_ID link) (world st))),
            links,
            \<lparr>world = snd (rt_RemoveFinalizer env (md_ID link) (world st)),
             calls = calls st @ [CallRemoveFinalizer (md_ID link)]\<rparr>)"
  using syncLink_teardown_absent[of link links env lib st] assms by simp

text \<open>An instance: a physical spec whose kernel link exists.\<close>

theorem teardown_physical_touches_no_link_witness:
  "syncLink exampleEnv exampleCodec [exampleLink ''eth0'' 2 1 None 1500]
     (exampleSpec ''eth0'' PhaseTearingDown False ''physical'' 1 9000)
     (exampleState [exampleSpec ''eth0'' PhaseTearingDown False ''physical'' 1 9000]
        [exampleLink ''eth0'' 2 1 None 1500])
   = (None, [exampleLink ''eth0'' 2 1 None 1500],
      \<lparr>world = \<lparr>ew_Specs = [exampleSpec ''eth0'' PhaseTearingDown False ''physical'' 1 9000],
                 ew_Links = [exampleLink ''eth0'' 2 1 None 1500], ew_Finalizers = []\<rparr>,
       calls = [CallRemoveFinalizer ''eth0'']\<rparr>)"
proof -
  let ?link = "exampleSpec ''eth0'' PhaseTearingDown False ''physical'' 1 9000"
  have 1: "md_Phase ?link = PhaseTearingDown" and 2: "\<not> ls_Logical ?link"
    by (simp_all add: example_defs)
  from teardown_physical_touches_no_link[OF 1 2, where env=exampleEnv and lib=exampleCodec
         and links="[exampleLink ''eth0'' 2 1 None 1500]"
         and st="exampleState [?link] [exampleLink ''eth0'' 2 1 None 1500]"]
  show ?thesis by (simp add: example_defs)
qed

subsection \<open>Kind or type mismatch\<close>

text \<open>Claim C2, as the code has it. For a running logical spec whose kernel link carries link
  info and reports another type or kind than desired, the first call of the sync is the
  delete of that link. If the delete fails, nothing else is called and its error is
  returned. If it succeeds, the next call is the creation of the link with the desired
  type, name and kind when the kind is wireguard; for any other kind the sync ends there
  without an error: nothing is created and the snapshot is left as it was.\<close>

theorem kind_mismatch_deletes_first:
  assumes run: "md_Phase link = PhaseRunning" and lg: "ls_Logical link"
    and f: "FindLink links (ls_Name link) = Some i"
    and inf: "la_Info (lm_Attributes (links ! i)) = Some info"
    and mm: "lm_Type (links ! i) \<noteq> ls_Type link \<or> li_Kind info \<noteq> ls_Kind link"
    and s: "syncLink env lib links link st = (r, links', st')"
  shows "\<exists>rest. calls st' = calls st @ CallLinkDelete (lm_Index (links ! i)) # rest \<and>
           (\<forall>err. fst (conn_Delete env (lm_Index (links ! i)) (world st)) = Some err \<longrightarrow>
              rest = [] \<and> r = Some (ErrDeletingLink (ls_Name link) err) \<and> links' = links) \<and>
           (fst (conn_Delete env (lm_Index (links ! i)) (world st)) = None \<longrightarrow>
              (if ls_Kind link = LinkKindWireguard
               then \<exists>rest'. rest = CallLinkNew (NewLink (ls_Type link) (ls_Name link) 0
                                                  (ls_Kind link) []) # rest'
               else rest = [] \<and> r = None \<and> links' = links))"
proof -
  obtain d w where d: "conn_Delete env (lm_Index (links ! i)) (world st) = (d, w)"
    by (cases "conn_Delete env (lm_Index (links ! i)) (world st)")
  define st0 where "st0 = \<lparr>world = w, calls = calls st @ [CallLinkDelete (lm_Index (links ! i))]\<rparr>"
  have sr: "syncRunning env lib links link st = (r, links', st')"
    using s run by (simp add: syncLink_def)
  show ?thesis
  proof (cases d)
    case (Some err)
    then have "checkKind env links link st = (Inl (Some (ErrDeletingLink (ls_Name link) err)), st0)"
      using checkKind_mismatch[OF lg f inf mm, of env st] d by (simp add: st0_def)
    then have "syncRunning env lib links link st = (Some (ErrDeletingLink (ls_Name link) err), links, st0)"
      by (simp add: syncRunning_def resolveLink_def)
    with sr have "r = Some (ErrDeletingLink (ls_Name link) err)" "links' = links" "st' = st0" by simp_all
    then show ?thesis using d Some by (simp add: st0_def)
  next
    case None
    then have ck: "checkKind env links link st = (Inr None, st0)"
      using checkKind_mismatch[OF lg f inf mm, of env st] d by (simp add: st0_def)
    show ?thesis
    proof (cases "ls_Kind link = LinkKindWireguard")
      case False
      then have "createLink env links link st0 = (Inl None, links, st0)"
        by (simp add: createLink_def)
      with ck have "syncRunning env lib links link st = (None, links, st0)"
        by (simp add: syncRunning_def resolveLink_def)
      with sr have "r = None" "links' = links" "st' = st0" by simp_all
      then show ?thesis using d None False by (simp add: st0_def)
    next
      case True
      obtain a links1 st1 where c: "createLink env links link st0 = (a, links1, st1)"
        by (cases "createLink env links link st0")
      from createLink_calls_prefix[OF lg True c] obtain rest0 where
        r0: "calls st1 = calls st0 @ CallLinkNew (NewLink (ls_Type link) (ls_Name link) 0 (ls_Kind link) []) # rest0"
        by blast
      have rl: "resolveLink env links link st = (a, links1, st1)"
        using ck c by (simp add: resolveLink_def)
      from syncRunning_calls[OF sr rl] obtain new where n: "calls st' = calls st1 @ new" by blast
      have "calls st' = calls st @ CallLinkDelete (lm_Index (links ! i)) #
              (CallLinkNew (NewLink (ls_Type link) (ls_Name link) 0 (ls_Kind link) []) # rest0 @ new)"
        using n r0 by (simp add: st0_def)
      then show ?thesis using d None True by auto
    qed
  qed
qed

text \<open>Claim C2 as it is stated, for every logical kind, fails for a bond: the kernel link of
  kind \<open>vlan\<close> is deleted, and the sync returns without creating the bond.\<close>

theorem kind_mismatch_bond_not_recreated:
  "syncLink exampleEnv exampleCodec [exampleLink ''bond0'' 7 1 (kindInfo ''vlan'') 1500]
     (exampleSpec ''bond0'' PhaseRunning True ''bond'' 1 0)
     (exampleState [] [exampleLink ''bond0'' 7 1 (kindInfo ''vlan'') 1500])
   = (None, [exampleLink ''bond0'' 7 1 (kindInfo ''vlan'') 1500],
      \<lparr>world = \<lparr>ew_Specs = [], ew_Links = [], ew_Finalizers = []\<rparr>,
       calls = [CallLinkDelete 7]\<rparr>)"
  by (simp add: sync_defs example_defs call_defs)

text \<open>An instance with the wireguard kind: the delete is followed by the creation.\<close>

theorem kind_mismatch_deletes_first_witness:
  "\<exists>rest. calls (snd (snd (syncLink exampleEnv exampleCodec
              [exampleLink ''wg0'' 7 1 (kindInfo ''dummy'') 1500]
              (exampleSpec ''wg0'' PhaseRunning True ''wireguard'' 65534 0)
              (exampleState [] [exampleLink ''wg0'' 7 1 (kindInfo ''dummy'') 1500]))))
     = CallLinkDelete 7 # CallLinkNew (NewLink 65534 ''wg0'' 0 ''wireguard'' []) # rest"
proof -
  let ?links = "[exampleLink ''wg0'' 7 1 (kindInfo ''dummy'') 1500]"
  let ?link = "exampleSpec ''wg0'' PhaseRunning True ''wireguard'' 65534 0"
  let ?st = "exampleState [] ?links"
  let ?X = "syncLink exampleEnv exampleCodec ?links ?link ?st"
  have 1: "md_Phase ?link = PhaseRunning" and 2: "ls_Logical ?link"
    and 3: "FindLink ?links (ls_Name ?link) = Some 0"
    and 4: "la_Info (lm_Attributes (?links ! 0)) = Some \<lparr>li_Kind = ''dummy'', li_Data = []\<rparr>"
    and 5: "lm_Type (?links ! 0) \<noteq> ls_Type ?link \<or>
            li_Kind \<lparr>li_Kind = ''dummy'', li_Data = []\<rparr> \<noteq> ls_Kind ?link"
    by (simp_all add: example_defs FindLink_def)
  have 6: "?X = (fst ?X, fst (snd ?X), snd (snd ?X))" by simp
  show ?thesis
    using kind_mismatch_deletes_first[OF 1 2 3 4 5 6]
    by (auto simp: example_defs LinkKindWireguard_def)
qed

text \<open>Claim C3 at a bridge whose kernel link has kind \<open>bond\<close>, followed by a physical
  item: the first sync deletes the kernel link and returns without listing the links
  again, so after the whole loop the snapshot still holds the deleted link, which the
  kernel no longer has.\<close>

theorem replaced_link_stays_in_snapshot:
  "syncLinks exampleEnv exampleCodec
     [exampleSpec ''br0'' PhaseRunning True ''bridge'' 1 0,
      exampleSpec ''eth0'' PhaseRunning False ''physical'' 1 0]
     [exampleLink ''br0'' 7 1 (kindInfo ''bond'') 1500, exampleLink ''eth0'' 2 1 None 1500] []
     (exampleState [] [exampleLink ''br0'' 7 1 (kindInfo ''bond'') 1500,
                       exampleLink ''eth0'' 2 1 None 1500])
   = ([],
      [exampleLink ''br0'' 7 1 (kindInfo ''bond'') 1500, exampleLink ''eth0'' 2 1 None 1500],
      \<lparr>world = \<lparr>ew_Specs = [], ew_Links = [exampleLink ''eth0'' 2 1 None 1500],
                 ew_Finalizers = []\<rparr>,
       calls = [CallLinkDelete 7]\<rparr>)"
  by (simp add: sync_defs example_defs call_defs)

subsection \<open>The cycle\<close>

lemma syncLinks_all:
  "syncLinks env lib items links multiErr st =
     (multiErr @ collectErrors (syncResults env lib items links st),
      syncedState env lib items links st)"
proof (induction items arbitrary: links multiErr st)
  case Nil
  then show ?case by simp
next
  case (Cons link rest)
  obtain r links1 st1 where s: "syncLink env lib links link st = (r, links1, st1)"
    by (cases "syncLink env lib links link st")
  show ?case
  proof (cases r)
    case None
    with s Cons.IH[of links1 multiErr st1] show ?thesis by simp
  next
    case (Some err)
    with s Cons.IH[of links1 "multiErr @ [err]" st1] show ?thesis by simp
  qed
qed

lemma length_syncResults: "length (syncResults env lib items links st) = length items"
  by (induction items arbitrary: links st) (auto split: prod.splits)

text \<open>Claim C4: the loop of a cycle syncs every item, each from the snapshot and state its
  predecessor left, whatever the results were; the errors it returns are those already
  appended followed by the errors of the items, in order. When the items, the finalizers
  and the links were obtained without error, the cycle returns the aggregate of all item
  errors if there is one, and otherwise resets the restart backoff and returns no error.\<close>

theorem cycle_syncs_every_item:
  "syncLinks env lib items links multiErr st =
     (multiErr @ collectErrors (syncResults env lib items links st),
      syncedState env lib items links st)
   \<and> length (syncResults env lib items links st) = length items
   \<and> (ListSpecs env st0 = (Inr items, st1) \<and> addFinalizers env items st1 = (None, st2) \<and>
        LinkList env st2 = ((links, None), st) \<longrightarrow>
        runCycle env lib st0 =
          (if collectErrors (syncResults env lib items links st) = []
           then (None, ResetRestartBackoff env (snd (syncedState env lib items links st)))
           else (Some (MultiError (collectErrors (syncResults env lib items links st))),
                 snd (syncedState env lib items links st))))"
proof (intro conjI impI)
  show "syncLinks env lib items links multiErr st =
     (multiErr @ collectErrors (syncResults env lib items links st),
      syncedState env lib items links st)" by (rule syncLinks_all)
  show "length (syncResults env lib items links st) = length items" by (rule length_syncResults)
next
  assume a: "ListSpecs env st0 = (Inr items, st1) \<and> addFinalizers env items st1 = (None, st2) \<and>
        LinkList env st2 = ((links, None), st)"
  obtain l s where ss: "syncedState env lib items links st = (l, s)"
    by (cases "syncedState env lib items links st")
  have "syncLinks env lib items links [] st = (collectErrors (syncResults env lib items links st), l, s)"
    using syncLinks_all[of env lib items links "[]" st] ss by simp
  then show "runCycle env lib st0 =
          (if collectErrors (syncResults env lib items links st) = []
           then (None, ResetRestartBackoff env (snd (syncedState env lib items links st)))
           else (Some (MultiError (collectErrors (syncResults env lib items links st))),
                 snd (syncedState env lib items links st)))"
    using a ss by (simp add: runCycle_def)
qed

text \<open>Two instances: a cycle whose first item fails (a wireguard link without a client) and
  whose second item is still synced, its finalizer removed; and a cycle without errors,
  which ends with the reset of the restart backoff.\<close>

theorem cycle_syncs_every_item_witness:
  "fst (runCycle exampleEnv exampleCodec
         (exampleState [exampleSpec ''wg0'' PhaseRunning True ''wireguard'' 65534 0,
                        exampleSpec ''eth0'' PhaseTearingDown False ''physical'' 1 0]
            [exampleLink ''wg0'' 7 65534 (kindInfo ''wireguard'') 1420,
             exampleLink ''eth0'' 2 1 None 1500]))
     = Some (MultiError [ErrWireguardClientNotAvailable ''wg0''])
   \<and> calls (snd (runCycle exampleEnv exampleCodec
         (exampleState [exampleSpec ''wg0'' PhaseRunning True ''wireguard'' 65534 0,
                        exampleSpec ''eth0'' PhaseTearingDown False ''physical'' 1 0]
            [exampleLink ''wg0'' 7 65534 (kindInfo ''wireguard'') 1420,
             exampleLink ''eth0'' 2 1 None 1500])))
     = [CallListSpecs, CallAddFinalizer ''wg0'', CallLinkList, CallRemoveFinalizer ''eth0'']
   \<and> runCycle exampleEnv exampleCodec
         (exampleState [exampleSpec ''eth0'' PhaseTearingDown False ''physical'' 1 0] [])
     = (None,
        \<lparr>world = \<lparr>ew_Specs = [exampleSpec ''eth0'' PhaseTearingDown False ''physical'' 1 0],
                   ew_Links = [], ew_Finalizers = []\<rparr>,
         calls = [CallListSpecs, CallLinkList, CallRemoveFinalizer ''eth0'',
                  CallResetRestartBackoff]\<rparr>)"
proof -
  let ?items = "[exampleSpec ''wg0'' PhaseRunning True ''wireguard'' 65534 0,
                 exampleSpec ''eth0'' PhaseTearingDown False ''physical'' 1 0]"
  let ?links = "[exampleLink ''wg0'' 7 65534 (kindInfo ''wireguard'') 1420,
                 exampleLink ''eth0'' 2 1 None 1500]"
  let ?st0 = "exampleState ?items ?links"
  let ?st1 = "snd (ListSpecs exampleEnv ?st0)"
  let ?st2 = "snd (addFinalizers exampleEnv ?items ?st1)"
  let ?st3 = "snd (LinkList exampleEnv ?st2)"
  have h: "ListSpecs exampleEnv ?st0 = (Inr ?items, ?st1) \<and>
           addFinalizers exampleEnv ?items ?st1 = (None, ?st2) \<and>
           LinkList exampleEnv ?st2 = ((?links, None), ?st3)"
    by (simp add: example_defs call_defs)
  let ?items' = "[exampleSpec ''eth0'' PhaseTearingDown False ''physical'' 1 0]"
  let ?su0 = "exampleState ?items' []"
  let ?su1 = "snd (ListSpecs exampleEnv ?su0)"
  let ?su2 = "snd (addFinalizers exampleEnv ?items' ?su1)"
  let ?su3 = "snd (LinkList exampleEnv ?su2)"
  have h': "ListSpecs exampleEnv ?su0 = (Inr ?items', ?su1) \<and>
           addFinalizers exampleEnv ?items' ?su1 = (None, ?su2) \<and>
           LinkList exampleEnv ?su2 = (([], None), ?su3)"
    by (simp add: example_defs call_defs)
  from cycle_syncs_every_item[where env=exampleEnv and lib=exampleCodec and items="?items"
         and links="?links" and ?st0.0="?st0" and ?st1.0="?st1" and ?st2.0="?st2" and st="?st3"]
       cycle_syncs_every_item[where env=exampleEnv and lib=exampleCodec and items="?items'"
         and links="[]" and ?st0.0="?su0" and ?st1.0="?su1" and ?st2.0="?su2" and st="?su3"]
       h h'
  show ?thesis
    by (simp add: sync_defs example_defs call_defs)
qed

subsection \<open>MTU\<close>




subsection \<open>No wireguard client\<close>

text \<open>Claim C8, as the code has it. Let a running item have the wireguard kind, and let there
  be no wireguard client. Whenever the sync resolves the kernel link, it fails with the
  error that the client is not available; in particular when the link is in the snapshot
  and the spec is not logical or the link has the desired type and kind. The tolerated
  conditions come first and return no error for such an item too: a spec that is not
  logical without a kernel link, and a logical spec whose kernel link has no link info.\<close>

theorem wireguard_without_client:
  assumes run: "md_Phase link = PhaseRunning"
    and wg: "ls_Kind link = LinkKindWireguard"
    and nc: "wgClient env = None"
  shows "(resolveLink env links link st = (Inr i, links1, st1) \<longrightarrow>
            syncLink env lib links link st =
              (Some (ErrWireguardClientNotAvailable (ls_Name link)), links1, st1))
       \<and> (FindLink links (ls_Name link) = Some j \<and>
          (\<not> ls_Logical link \<or>
           (\<exists>info. la_Info (lm_Attributes (links ! j)) = Some info \<and>
                   lm_Type (links ! j) = ls_Type link \<and> li_Kind info = ls_Kind link)) \<longrightarrow>
            syncLink env lib links link st =
              (Some (ErrWireguardClientNotAvailable (ls_Name link)), links, st))
       \<and> (FindLink links (ls_Name link) = None \<and> \<not> ls_Logical link \<longrightarrow>
            syncLink env lib links link st = (None, links, st))
       \<and> (FindLink links (ls_Name link) = Some j \<and> ls_Logical link \<and>
          la_Info (lm_Attributes (links ! j)) = None \<longrightarrow>
            syncLink env lib links link st = (None, links, st))"
proof (intro conjI impI)
  assume "resolveLink env links link st = (Inr i, links1, st1)"
  then show "syncLink env lib links link st =
              (Some (ErrWireguardClientNotAvailable (ls_Name link)), links1, st1)"
    using run wg nc by (simp add: syncLink_def syncRunning_def syncWireguard_def)
next
  assume a: "FindLink links (ls_Name link) = Some j \<and>
          (\<not> ls_Logical link \<or>
           (\<exists>info. la_Info (lm_Attributes (links ! j)) = Some info \<and>
                   lm_Type (links ! j) = ls_Type link \<and> li_Kind info = ls_Kind link))"
  then have "resolveLink env links link st = (Inr j, links, st)"
    by (auto simp: resolveLink_def checkKind_def)
  then show "syncLink env lib links link st =
              (Some (ErrWireguardClientNotAvailable (ls_Name link)), links, st)"
    using run wg nc by (simp add: syncLink_def syncRunning_def syncWireguard_def)
next
  assume "FindLink links (ls_Name link) = None \<and> \<not> ls_Logical link"
  then show "syncLink env lib links link st = (None, links, st)"
    using run by (simp add: syncLink_def syncRunning_def resolveLink_def checkKind_def createLink_def)
next
  assume "FindLink links (ls_Name link) = Some j \<and> ls_Logical link \<and>
          la_Info (lm_Attributes (links ! j)) = None"
  then show "syncLink env lib links link st = (None, links, st)"
    using run by (simp add: syncLink_def syncRunning_def resolveLink_def checkKind_def)
qed

text \<open>Claim C8 as it is stated, for every running item of wireguard kind, fails when the
  kernel link has no link info: without a client the sync still returns no error.\<close>

theorem wireguard_without_client_tolerated:
  "ls_Kind (exampleSpec ''wg0'' PhaseRunning True ''wireguard'' 65534 0) = LinkKindWireguard
   \<and> wgClient exampleEnv = None
   \<and> syncLink exampleEnv exampleCodec [exampleLink ''wg0'' 7 65534 None 1420]
       (exampleSpec ''wg0'' PhaseRunning True ''wireguard'' 65534 0)
       (exampleState [] [exampleLink ''wg0'' 7 65534 None 1420])
     = (None, [exampleLink ''wg0'' 7 65534 None 1420],
        exampleState [] [exampleLink ''wg0'' 7 65534 None 1420])"
  by (simp add: sync_defs example_defs call_defs)

text \<open>Two instances: a wireguard link of the right kind, and a wireguard spec that is not
  logical and has no kernel link.\<close>

theorem wireguard_without_client_witness:
  "syncLink exampleEnv exampleCodec [exampleLink ''wg0'' 7 65534 (kindInfo ''wireguard'') 1420]
     (exampleSpec ''wg0'' PhaseRunning True ''wireguard'' 65534 0)
     (exampleState [] [exampleLink ''wg0'' 7 65534 (kindInfo ''wireguard'') 1420])
   = (Some (ErrWireguardClientNotAvailable ''wg0''),
      [exampleLink ''wg0'' 7 65534 (kindInfo ''wireguard'') 1420],
      exampleState [] [exampleLink ''wg0'' 7 65534 (kindInfo ''wireguard'') 1420])
   \<and> syncLink exampleEnv exampleCodec []
       (exampleSpec ''wg0'' PhaseRunning False ''wireguard'' 65534 0) (exampleState [] [])
     = (None, [], exampleState [] [])"
proof -
  let ?link = "exampleSpec ''wg0'' PhaseRunning True ''wireguard'' 65534 0"
  let ?link' = "exampleSpec ''wg0'' PhaseRunning False ''wireguard'' 65534 0"
  let ?links = "[exampleLink ''wg0'' 7 65534 (kindInfo ''wireguard'') 1420]"
  have 1: "md_Phase ?link = PhaseRunning" and 2: "ls_Kind ?link = LinkKindWireguard"
    and 3: "wgClient exampleEnv = None"
    and 4: "md_Phase ?link' = PhaseRunning" and 5: "ls_Kind ?link' = LinkKindWireguard"
    by (simp_all add: example_defs LinkKindWireguard_def)
  from wireguard_without_client[OF 1 2 3, where links="?links" and j=0 and lib=exampleCodec
         and st="exampleState [] ?links"]
       wireguard_without_client[OF 4 5 3, where links="[]" and lib=exampleCodec
         and st="exampleState [] []"]
  show ?thesis by (simp add: example_defs FindLink_def)
qed

end
